theory Spec2Isabelle
  imports Main "HOL-Library.AList"
begin

section \<open>JavaScript values and objects\<close>

text \<open>
  Values that travel as JSON between the browser and the API routes. A number is kept as an
  integer: no function below computes with numbers, only their truthiness (zero is falsy)
  and their rendering by \<open>String\<close> are used, which is the plain decimal for the integers
  below \<open>10^21\<close> in size; numbers with a fraction and larger ones are not modelled. A
  missing property (\<open>undefined\<close>) is the absence of the key.
\<close>

datatype json = JNull | JBool bool | JNum int | JStr string

text \<open>
  A plain object \<open>Record<string, any>\<close>: its own string keys in insertion order.
  Assignment \<open>o[k] = v\<close> is \<^const>\<open>AList.update\<close>: an existing key keeps its
  place, a new key goes last.
\<close>

type_synonym 'v obj = "(string \<times> 'v) list"

text \<open>A JavaScript \<open>Set\<close> of primitives: distinct elements in insertion order.\<close>

definition Set_add :: "'a list \<Rightarrow> 'a \<Rightarrow> 'a list" where
  "Set_add s x = (if x \<in> set s then s else s @ [x])"

text \<open>Decimal rendering of a number in a template literal or by \<open>toString()\<close>.\<close>

definition digit_char :: "nat \<Rightarrow> char" where
  "digit_char d = ''0123456789'' ! d"

fun decimal :: "nat \<Rightarrow> string" where
  "decimal n = (if n < 10 then [digit_char n] else decimal (n div 10) @ [digit_char (n mod 10)])"

declare decimal.simps [simp del]

definition decimal_int :: "int \<Rightarrow> string" where
  "decimal_int i = (if i < 0 then CHR ''-'' # decimal (nat (- i)) else decimal (nat i))"

section \<open>lib/fileParser.ts\<close>

subsection \<open>Result shapes\<close>

text \<open>
  \<open>ChunkResult\<close> and \<open>ParseResult\<close>; the latter has the fields of the former and
  \<open>totalRows\<close>. Rows and error entries are \<open>any\<close> in the source: type parameters here.
\<close>

record ('r, 'e) ChunkResult =
  data :: "'r list"
  result_fields :: "string list"
  errors :: "'e list"

record ('r, 'e) ParseResult = "('r, 'e) ChunkResult" +
  totalRows :: nat

text \<open>The three callbacks \<open>onChunk\<close>, \<open>onComplete\<close>, \<open>onError\<close>, as the trace of their calls.\<close>

datatype ('r, 'e) callback =
    OnChunk "('r, 'e) ChunkResult"
  | OnComplete "('r, 'e) ParseResult"
  | OnError string

text \<open>The rows handed to \<open>onChunk\<close>, one list per call, in call order.\<close>

fun batches :: "('r, 'e) callback list \<Rightarrow> 'r list list" where
  "batches [] = []"
| "batches (OnChunk c # es) = data c # batches es"
| "batches (_ # es) = batches es"

text \<open>The \<open>totalRows\<close> figures handed to \<open>onComplete\<close>.\<close>

fun reportedTotals :: "('r, 'e) callback list \<Rightarrow> nat list" where
  "reportedTotals [] = []"
| "reportedTotals (OnComplete r # es) = totalRows r # reportedTotals es"
| "reportedTotals (_ # es) = reportedTotals es"

subsection \<open>createCSVParserWorker and parseCSVFile\<close>

text \<open>
  What PapaParse hands to the \<open>chunk\<close> callback: \<open>results.data\<close>,
  \<open>results.meta.fields\<close> (absent when \<open>results.meta\<close> or its \<open>fields\<close> is missing) and
  \<open>results.errors\<close> (possibly undefined). PapaParse itself is a library loaded by
  \<open>importScripts\<close>; the sequence of its callbacks is the input of the model.
\<close>

record ('r, 'e) papa_results =
  results_data :: "'r list"
  results_meta_fields :: "string list option"
  results_errors :: "'e list option"

datatype papa_end = PapaComplete | PapaError string

text \<open>The worker's module-level variables \<open>totalRows\<close>, \<open>allFields\<close>, \<open>errors\<close>.\<close>

record 'e worker =
  w_totalRows :: nat
  w_allFields :: "string list"
  w_errors :: "'e list"

definition worker_init :: "'e worker" where
  "worker_init = \<lparr>w_totalRows = 0, w_allFields = [], w_errors = []\<rparr>"

datatype ('r, 'e) message =
    ChunkMsg "'r list" "string list" "'e list"
  | CompleteMsg nat "string list" "'e list"
  | ErrorMsg string

text \<open>The \<open>chunk\<close> callback of the worker: updates the three variables, posts one message.\<close>

definition chunk :: "'e worker \<Rightarrow> ('r, 'e) papa_results \<Rightarrow> 'e worker \<times> ('r, 'e) message" where
  "chunk w results =
     (let total = w_totalRows w + length (results_data results);
          allFields = (case results_meta_fields results of
                         None \<Rightarrow> w_allFields w
                       | Some fs \<Rightarrow> fold (\<lambda>field s. Set_add s field) fs (w_allFields w));
          errs = (case results_errors results of
                    None \<Rightarrow> w_errors w
                  | Some es \<Rightarrow> if length es > 0 then w_errors w @ es else w_errors w)
      in (\<lparr>w_totalRows = total, w_allFields = allFields, w_errors = errs\<rparr>,
          ChunkMsg (results_data results) allFields
            (case results_errors results of None \<Rightarrow> [] | Some es \<Rightarrow> es)))"

definition complete :: "'e worker \<Rightarrow> ('r, 'e) message" where
  "complete w = CompleteMsg (w_totalRows w) (w_allFields w) (w_errors w)"

text \<open>\<open>Papa.parse(file, parseConfig)\<close>: the chunk callbacks in order, then \<open>complete\<close> or \<open>error\<close>.\<close>

fun runWorker :: "'e worker \<Rightarrow> ('r, 'e) papa_results list \<Rightarrow> papa_end \<Rightarrow> ('r, 'e) message list" where
  "runWorker w [] PapaComplete = [complete w]"
| "runWorker w [] (PapaError e) = [ErrorMsg e]"
| "runWorker w (r # rs) e = (case chunk w r of (w', m) \<Rightarrow> m # runWorker w' rs e)"

text \<open>\<open>worker.onmessage\<close> on the main thread: one callback per message.\<close>

fun onmessage :: "('r, 'e) message \<Rightarrow> ('r, 'e) callback" where
  "onmessage (ChunkMsg d fs es) = OnChunk \<lparr>data = d, result_fields = fs, errors = es\<rparr>"
| "onmessage (CompleteMsg n fs es) = OnComplete \<lparr>data = [], result_fields = fs, errors = es, totalRows = n\<rparr>"
| "onmessage (ErrorMsg e) = OnError e"

definition parseCSVFile :: "('r, 'e) papa_results list \<Rightarrow> papa_end \<Rightarrow> ('r, 'e) callback list" where
  "parseCSVFile chunks e = map onmessage (runWorker worker_init chunks e)"

subsection \<open>parseExcelFile\<close>

text \<open>
  A cell value of ExcelJS. The parser computes with no value; it only asks a header cell for
  its \<open>toString()\<close>. A number, a date and an object value (rich text, formula,
  hyperlink) are therefore kept as the text their \<open>toString()\<close> gives (for a number
  the rendering of \<open>Number.prototype.toString\<close>, as \<open>1e+21\<close> or \<open>0.5\<close>);
  \<open>CNull\<close> is a null or undefined \<open>cell.value\<close>.
\<close>

datatype cellvalue = CNull | CStr string | CNum string | CBool bool | CDate string | CObject string

text \<open>\<open>cell.value?.toString()\<close>: undefined for a null value.\<close>

fun toString :: "cellvalue \<Rightarrow> string option" where
  "toString CNull = None"
| "toString (CStr s) = Some s"
| "toString (CNum t) = Some t"
| "toString (CBool b) = Some (if b then ''true'' else ''false'')"
| "toString (CDate t) = Some t"
| "toString (CObject t) = Some t"

text \<open>
  A cell as \<open>eachCell\<close> hands it over: the 1-based column number and the value. A row as
  \<open>eachRow\<close> hands it over: the 1-based row number and its cells. Which cells and rows the
  two iterators visit is ExcelJS's business; the lists are the input of the model.
\<close>

type_synonym cell = "nat \<times> cellvalue"
type_synonym worksheet = "(nat \<times> cell list) list"

definition getRow :: "worksheet \<Rightarrow> nat \<Rightarrow> cell list" where
  "getRow ws n = (case find (\<lambda>r. fst r = n) ws of None \<Rightarrow> [] | Some r \<Rightarrow> snd r)"

text \<open>\<open>cell.value?.toString() || `Column${colNumber}`\<close>: the empty string is falsy.\<close>

definition headerName :: "cell \<Rightarrow> string" where
  "headerName c =
     (case toString (snd c) of
        None \<Rightarrow> ''Column'' @ decimal (fst c)
      | Some s \<Rightarrow> if s = [] then ''Column'' @ decimal (fst c) else s)"

text \<open>The header loop: \<open>headers.push(header); allFields.add(header)\<close> for each cell of row 1.\<close>

definition headersOf :: "cell list \<Rightarrow> string list" where
  "headersOf cs = map headerName cs"

definition allFieldsOf :: "cell list \<Rightarrow> string list" where
  "allFieldsOf cs = fold (\<lambda>c s. Set_add s (headerName c)) cs []"

text \<open>
  The inner \<open>row.eachCell\<close> of a data row: a cell within the header width is stored under
  \<open>headers[colNumber - 1]\<close>, any other cell is dropped. Column numbers are 1-based; at 0
  JavaScript would read \<open>headers[-1]\<close>, which is undefined, and use the key \<open>undefined\<close>.
\<close>

definition setCell :: "string list \<Rightarrow> cell \<Rightarrow> cellvalue obj \<Rightarrow> cellvalue obj" where
  "setCell headers c rowData =
     (if fst c \<le> length headers
      then AList.update (if fst c = 0 then ''undefined'' else headers ! (fst c - 1)) (snd c) rowData
      else rowData)"

definition rowDataOf :: "string list \<Rightarrow> cell list \<Rightarrow> cellvalue obj" where
  "rowDataOf headers cs = fold (setCell headers) cs []"

definition CHUNK_SIZE :: nat where
  "CHUNK_SIZE = 100"

text \<open>The variables of the row loop, and the \<open>onChunk\<close> calls made so far.\<close>

record 'e excel_loop =
  currentChunk :: "cellvalue obj list"
  xl_totalRows :: nat
  allData :: "cellvalue obj list"
  emitted :: "(cellvalue obj, 'e) callback list"

definition excel_loop_init :: "'e excel_loop" where
  "excel_loop_init = \<lparr>currentChunk = [], xl_totalRows = 0, allData = [], emitted = []\<rparr>"

text \<open>The body of \<open>worksheet.eachRow((row, rowNumber) => ...)\<close>.\<close>

definition eachRow_body :: "string list \<Rightarrow> string list \<Rightarrow> nat \<times> cell list \<Rightarrow> 'e excel_loop \<Rightarrow> 'e excel_loop" where
  "eachRow_body headers allFields r s =
     (if fst r = 1 then s
      else
        let chunk' = currentChunk s @ [rowDataOf headers (snd r)];
            total = xl_totalRows s + 1
        in if length chunk' \<ge> CHUNK_SIZE
           then \<lparr>currentChunk = [], xl_totalRows = total, allData = allData s @ chunk',
                 emitted = emitted s @ [OnChunk \<lparr>data = chunk', result_fields = allFields, errors = []\<rparr>]\<rparr>
           else \<lparr>currentChunk = chunk', xl_totalRows = total, allData = allData s,
                 emitted = emitted s\<rparr>)"

text \<open>After the loop: the remaining rows, if any, then \<open>onComplete\<close>.\<close>

definition flushAndComplete :: "string list \<Rightarrow> 'e excel_loop \<Rightarrow> (cellvalue obj, 'e) callback list" where
  "flushAndComplete allFields s =
     (let rest = (if length (currentChunk s) > 0
                  then [OnChunk \<lparr>data = currentChunk s, result_fields = allFields, errors = []\<rparr>]
                  else []);
          allData' = (if length (currentChunk s) > 0 then allData s @ currentChunk s else allData s)
      in emitted s @ rest @
         [OnComplete \<lparr>data = allData', result_fields = allFields, errors = [], totalRows = xl_totalRows s\<rparr>])"

text \<open>
  What reading the file gives: the reader's \<open>onerror\<close>, an empty \<open>e.target.result\<close>, a
  \<open>workbook.xlsx.load\<close> that throws, or the loaded workbook's worksheets.
\<close>

datatype file_read = ReaderError | NoResult | LoadThrows string | Workbook "worksheet list"

fun parseExcelFile :: "file_read \<Rightarrow> (cellvalue obj, 'e) callback list" where
  "parseExcelFile ReaderError = [OnError ''Failed to read Excel file'']"
| "parseExcelFile NoResult = [OnError ''Failed to read file'']"
| "parseExcelFile (LoadThrows msg) = [OnError msg]"
| "parseExcelFile (Workbook []) = [OnError ''No worksheets found in the Excel file'']"
| "parseExcelFile (Workbook (worksheet # _)) =
     (let headers = headersOf (getRow worksheet 1);
          allFields = allFieldsOf (getRow worksheet 1)
      in flushAndComplete allFields
           (fold (eachRow_body headers allFields) worksheet excel_loop_init))"

text \<open>The data rows of a worksheet, decoded, in the order \<open>eachRow\<close> visits them.\<close>

definition dataRows :: "worksheet \<Rightarrow> cellvalue obj list" where
  "dataRows ws = map (\<lambda>r. rowDataOf (headersOf (getRow ws 1)) (snd r)) (filter (\<lambda>r. fst r \<noteq> 1) ws)"

text \<open>
  The batch cadence of a run: every batch but the last has exactly \<open>B\<close> rows, and the last
  has between 1 and \<open>B\<close>.
\<close>

definition cadence :: "nat \<Rightarrow> 'r list list \<Rightarrow> bool" where
  "cadence B bs = ((\<forall>b \<in> set (butlast bs). length b = B) \<and>
                   (bs \<noteq> [] \<longrightarrow> 0 < length (last bs) \<and> length (last bs) \<le> B))"

text \<open>The field lists handed to \<open>onChunk\<close>, one per call.\<close>

fun chunkFields :: "('r, 'e) callback list \<Rightarrow> string list list" where
  "chunkFields [] = []"
| "chunkFields (OnChunk c # es) = result_fields c # chunkFields es"
| "chunkFields (_ # es) = chunkFields es"

text \<open>
  The invariant of the row loop after the rows decoded so far: every batch handed out is
  full, the buffer is not, nothing is lost or reordered, and \<open>totalRows\<close> counts the rows.
\<close>

definition decodeRows :: "string list \<Rightarrow> worksheet \<Rightarrow> cellvalue obj list" where
  "decodeRows hs ws = map (\<lambda>r. rowDataOf hs (snd r)) (filter (\<lambda>r. fst r \<noteq> 1) ws)"

definition loop_inv :: "cellvalue obj list \<Rightarrow> 'e excel_loop \<Rightarrow> bool" where
  "loop_inv rows s \<longleftrightarrow>
     (\<forall>b \<in> set (batches (emitted s)). length b = CHUNK_SIZE) \<and>
     length (currentChunk s) < CHUNK_SIZE \<and>
     concat (batches (emitted s)) @ currentChunk s = rows \<and>
     xl_totalRows s = length rows \<and>
     reportedTotals (emitted s) = []"

section \<open>components/PatientTable.tsx\<close>

subsection \<open>Row objects and the heap\<close>

text \<open>
  \<open>updateData\<close> assigns into a row object in place, and the arrays \<open>tableData\<close> and
  \<open>originalData\<close> hold references to row objects. The heap lists every row object by
  address; an array of rows is a list of addresses. \<open>JSON.parse\<close> allocates fresh
  objects at the end of the heap.
\<close>

type_synonym row = "json obj"
type_synonym ref = nat

definition rowsAt :: "row list \<Rightarrow> ref list \<Rightarrow> row list" where
  "rowsAt h refs = map (\<lambda>a. h ! a) refs"

text \<open>\<open>JSON.parse\<close> (and \<open>response.json()\<close>) of an array of records.\<close>

definition parseRows :: "row list \<Rightarrow> row list \<Rightarrow> row list \<times> ref list" where
  "parseRows h rows = (h @ rows, [length h..<length h + length rows])"

text \<open>\<open>JSON.parse(JSON.stringify(x))\<close>, the deep copy of an array of rows.\<close>

definition jsonCopy :: "row list \<Rightarrow> ref list \<Rightarrow> row list \<times> ref list" where
  "jsonCopy h refs = parseRows h (rowsAt h refs)"

text \<open>Truthiness: \<open>null\<close>, \<open>false\<close>, \<open>0\<close> and the empty string are falsy, as is a missing property.\<close>

fun truthy :: "json \<Rightarrow> bool" where
  "truthy JNull = False"
| "truthy (JBool b) = b"
| "truthy (JNum n) = (n \<noteq> 0)"
| "truthy (JStr s) = (s \<noteq> [])"

definition has :: "row \<Rightarrow> string \<Rightarrow> bool" where
  "has r k = (case map_of r k of None \<Rightarrow> False | Some v \<Rightarrow> truthy v)"

text \<open>\<open>String(v)\<close> and the text of \<open>${v}\<close> in a template literal.\<close>

fun String :: "json \<Rightarrow> string" where
  "String JNull = ''null''"
| "String (JBool b) = (if b then ''true'' else ''false'')"
| "String (JNum n) = decimal_int n"
| "String (JStr s) = s"

definition idText :: "row \<Rightarrow> string" where
  "idText r = (case map_of r ''_id'' of None \<Rightarrow> ''undefined'' | Some v \<Rightarrow> String v)"

subsection \<open>Component state\<close>

record table =
  heap :: "row list"
  tableData :: "ref list"
  dirtyRows :: "nat list"
  originalData :: "ref list"
  rowSelection :: "nat list"
  isSaving :: bool
  isDeleting :: bool

text \<open>
  \<open>dirtyRows\<close> is a \<open>Set<number>\<close> (insertion order); \<open>rowSelection\<close> is kept as the list
  \<open>Object.keys(rowSelection)\<close> of selected row indexes.
\<close>

definition table_init :: table where
  "table_init = \<lparr>heap = [], tableData = [], dirtyRows = [], originalData = [],
                  rowSelection = [], isSaving = False, isDeleting = False\<rparr>"

text \<open>The records behind the two arrays: the working copy and the original snapshot.\<close>

definition working :: "table \<Rightarrow> row list" where
  "working st = rowsAt (heap st) (tableData st)"

definition original :: "table \<Rightarrow> row list" where
  "original st = rowsAt (heap st) (originalData st)"

text \<open>
  What a handler throws (an \<open>Error\<close> with its message, a TypeError of the engine, an
  error of the BSON library), and what it tells the user through \<open>toast\<close>.
\<close>

datatype thrown = Error string | TypeError | BSONError

datatype notice = Failure thrown | Success string

datatype request = PUT_patients "row list" | DELETE_patient string | GET_patients

subsection \<open>The load effect\<close>

text \<open>
  \<open>useEffect(() => { setTableData(data); setOriginalData(JSON.parse(JSON.stringify(data)));
  setDirtyRows(new Set()); setRowSelection({}) }, [data])\<close>.
\<close>

definition loadEffect :: "table \<Rightarrow> ref list \<Rightarrow> table" where
  "loadEffect st data' =
     (case jsonCopy (heap st) data' of
        (h, copy) \<Rightarrow> st\<lparr>heap := h, tableData := data', originalData := copy,
                         dirtyRows := [], rowSelection := []\<rparr>)"

text \<open>
  A load: the page's \<open>fetchPatients\<close> reads the records with \<open>response.json()\<close> and passes
  them down as the \<open>data\<close> prop, on which the effect runs.
\<close>

definition load :: "table \<Rightarrow> row list \<Rightarrow> table" where
  "load st rows = (case parseRows (heap st) rows of (h, data') \<Rightarrow> loadEffect (st\<lparr>heap := h\<rparr>) data')"

subsection \<open>updateData and the editable cell\<close>

text \<open>
  \<open>newData[rowIndex][columnId] = value\<close> throws a TypeError when \<open>newData[rowIndex]\<close> is
  undefined, before any state is set. \<open>newData\<close> is a new array of the same row objects.
\<close>

definition updateData :: "table \<Rightarrow> nat \<Rightarrow> string \<Rightarrow> json \<Rightarrow> thrown + table" where
  "updateData st rowIndex columnId v =
     (if rowIndex < length (tableData st)
      then let a = tableData st ! rowIndex
           in Inr (st\<lparr>heap := (heap st)[a := AList.update columnId v (heap st ! a)],
                       dirtyRows := Set_add (dirtyRows st) rowIndex\<rparr>)
      else Inl TypeError)"



text \<open>A sequence of edits; an edit that throws leaves the state as it was.\<close>

fun applyEdits :: "table \<Rightarrow> (nat \<times> string \<times> json) list \<Rightarrow> table" where
  "applyEdits st [] = st"
| "applyEdits st ((i, c, v) # es) =
     applyEdits (case updateData st i c v of Inl _ \<Rightarrow> st | Inr st' \<Rightarrow> st') es"

subsection \<open>handleSaveChanges\<close>

text \<open>
  \<open>Array.from(dirtyRows).map(index => ...)\<close>: stops at the first row that is undefined
  (TypeError on \<open>row._id\<close>) or has a falsy \<open>_id\<close>.
\<close>

fun modifiedRows :: "table \<Rightarrow> nat list \<Rightarrow> thrown + row list" where
  "modifiedRows st [] = Inr []"
| "modifiedRows st (index # rest) =
     (if index < length (tableData st)
      then let r = working st ! index
           in if \<not> has r ''_id'' then Inl (Error ''Cannot update row without _id'')
              else (case modifiedRows st rest of Inl e \<Rightarrow> Inl e | Inr rs \<Rightarrow> Inr (r # rs))
      else Inl TypeError)"

text \<open>
  The answer to \<open>PUT /api/patients\<close>: the fetch rejects, or the response is not ok (with the
  server's \<open>error\<close> text, if any), or it is ok with a \<open>modifiedCount\<close>.
\<close>

datatype put_reply = PutRejected string | PutNotOk "string option" | PutOk nat

definition orElse :: "string option \<Rightarrow> string \<Rightarrow> string" where
  "orElse m fallback = (case m of None \<Rightarrow> fallback | Some t \<Rightarrow> if t = [] then fallback else t)"

definition handleSaveChanges :: "table \<Rightarrow> put_reply \<Rightarrow> table \<times> request list \<times> notice" where
  "handleSaveChanges st reply =
     (case modifiedRows st (dirtyRows st) of
        Inl e \<Rightarrow> (st\<lparr>isSaving := False\<rparr>, [], Failure e)
      | Inr rows \<Rightarrow>
          if length rows = 0 then (st\<lparr>isSaving := False\<rparr>, [], Success ''No changes to save'')
          else (case reply of
                  PutRejected msg \<Rightarrow> (st\<lparr>isSaving := False\<rparr>, [PUT_patients rows], Failure (Error msg))
                | PutNotOk err \<Rightarrow>
                    (st\<lparr>isSaving := False\<rparr>, [PUT_patients rows],
                     Failure (Error (orElse err ''Failed to save changes'')))
                | PutOk modifiedCount \<Rightarrow>
                    (case jsonCopy (heap st) (tableData st) of
                       (h, copy) \<Rightarrow>
                         (st\<lparr>heap := h, originalData := copy, dirtyRows := [], isSaving := False\<rparr>,
                          [PUT_patients rows],
                          Success (''Saved '' @ decimal modifiedCount @ '' changes!'')))))"

subsection \<open>handleRevertChanges\<close>

definition handleRevertChanges :: "table \<Rightarrow> table" where
  "handleRevertChanges st =
     (case jsonCopy (heap st) (originalData st) of
        (h, copy) \<Rightarrow> st\<lparr>heap := h, tableData := copy, dirtyRows := []\<rparr>)"

subsection \<open>handleDeleteSelected\<close>

text \<open>\<open>Object.keys(rowSelection).map(index => tableData[parseInt(index, 10)])\<close>.\<close>

definition selectedRows :: "table \<Rightarrow> row option list" where
  "selectedRows st =
     map (\<lambda>i. if i < length (tableData st) then Some (working st ! i) else None) (rowSelection st)"

text \<open>
  \<open>selectedRows.map(row => ...)\<close> starts one DELETE per row, synchronously and in order,
  and throws at the first row that is undefined or has a falsy \<open>_id\<close>; the requests
  started before that row have been sent. The result: the ids requested, and what was thrown.
\<close>

fun startDeletes :: "row option list \<Rightarrow> string list \<times> thrown option" where
  "startDeletes [] = ([], None)"
| "startDeletes (None # rest) = ([], Some TypeError)"
| "startDeletes (Some r # rest) =
     (if \<not> has r ''_id'' then ([], Some (Error ''Cannot delete row without _id''))
      else (case startDeletes rest of (ids, e) \<Rightarrow> (idText r # ids, e)))"

text \<open>
  The answer to one DELETE: the fetch (or the reading of an ok response's body) rejects, or
  the response arrives with its \<open>ok\<close> flag. The promise of a row rejects in the first
  case and for a response that is not ok.
\<close>

datatype delete_reply = DeleteRejected string | DeleteStatus bool

fun rejection :: "string \<Rightarrow> delete_reply \<Rightarrow> thrown option" where
  "rejection ident (DeleteRejected msg) = Some (Error msg)"
| "rejection ident (DeleteStatus ok) =
     (if ok then None else Some (Error (''Failed to delete record with ID '' @ ident)))"

text \<open>
  \<open>await Promise.all(deletePromises)\<close> throws the rejection that settles first. The order
  of settling is the network's: \<open>settle k\<close> is the time at which promise \<open>k\<close> settles, and
  of two promises settling together the earlier in the array is taken.
\<close>

fun firstRejection :: "(nat \<Rightarrow> nat) \<Rightarrow> (nat \<times> thrown option) list \<Rightarrow> (nat \<times> thrown) option" where
  "firstRejection settle [] = None"
| "firstRejection settle ((k, None) # rest) = firstRejection settle rest"
| "firstRejection settle ((k, Some e) # rest) =
     (case firstRejection settle rest of
        None \<Rightarrow> Some (k, e)
      | Some (k', e') \<Rightarrow> if settle k' < settle k then Some (k', e') else Some (k, e))"

definition promiseAll :: "(nat \<Rightarrow> nat) \<Rightarrow> thrown option list \<Rightarrow> thrown option" where
  "promiseAll settle ps = map_option snd (firstRejection settle (zip [0..<length ps] ps))"

text \<open>
  The answer to the refresh \<open>GET /api/patients\<close>: the fetch (or reading its body) rejects,
  or the body arrives, with \<open>data.data\<close> possibly undefined.
\<close>

datatype get_reply = GetRejected string | GetBody "row list option"

text \<open>\<open>data.data || []\<close>.\<close>

definition refreshedRows :: "row list option \<Rightarrow> row list" where
  "refreshedRows d = (case d of None \<Rightarrow> [] | Some rows \<Rightarrow> rows)"

definition handleDeleteSelected ::
  "table \<Rightarrow> bool \<Rightarrow> (nat \<Rightarrow> delete_reply) \<Rightarrow> (nat \<Rightarrow> nat) \<Rightarrow> get_reply
     \<Rightarrow> table \<times> request list \<times> notice option" where
  "handleDeleteSelected st confirm reply settle refreshed =
     (if length (selectedRows st) = 0
      then (st\<lparr>isDeleting := False\<rparr>, [], Some (Failure (Error ''No rows selected'')))
      else if \<not> confirm then (st\<lparr>isDeleting := False\<rparr>, [], None)
      else
        (case startDeletes (selectedRows st) of
           (ids, Some e) \<Rightarrow> (st\<lparr>isDeleting := False\<rparr>, map DELETE_patient ids, Some (Failure e))
         | (ids, None) \<Rightarrow>
             (case promiseAll settle (map (\<lambda>k. rejection (ids ! k) (reply k)) [0..<length ids]) of
                Some e \<Rightarrow> (st\<lparr>isDeleting := False\<rparr>, map DELETE_patient ids, Some (Failure e))
              | None \<Rightarrow>
                  (case refreshed of
                     GetRejected msg \<Rightarrow>
                       (st\<lparr>rowSelection := [], isDeleting := False\<rparr>,
                        map DELETE_patient ids @ [GET_patients], Some (Failure (Error msg)))
                   | GetBody d \<Rightarrow>
                       (case parseRows (heap st) (refreshedRows d) of
                          (h, fresh) \<Rightarrow>
                            (case jsonCopy h fresh of
                               (h', copy) \<Rightarrow>
                                 (st\<lparr>heap := h', tableData := fresh, originalData := copy,
                                     dirtyRows := [], rowSelection := [], isDeleting := False\<rparr>,
                                  map DELETE_patient ids @ [GET_patients],
                                  Some (Success (''Deleted '' @ decimal (length (selectedRows st))
                                                 @ '' record(s) successfully'')))))))))"

subsection \<open>Reachable states\<close>

text \<open>
  The states of the component: the initial one, and what loads, edits, saves, reverts,
  deletions and changes of the selection make of a state.
\<close>

inductive reachable :: "table \<Rightarrow> bool" where
  r_init: "reachable table_init"
| r_load: "reachable st \<Longrightarrow> reachable (load st rows)"
| r_edit: "reachable st \<Longrightarrow> updateData st i c v = Inr st' \<Longrightarrow> reachable st'"
| r_save: "reachable st \<Longrightarrow> reachable (fst (handleSaveChanges st reply))"
| r_revert: "reachable st \<Longrightarrow> reachable (handleRevertChanges st)"
| r_delete: "reachable st \<Longrightarrow>
             reachable (fst (handleDeleteSelected st confirm dreply settle refreshed))"
| r_select: "reachable st \<Longrightarrow> reachable (st\<lparr>rowSelection := sel\<rparr>)"

text \<open>
  The shape every reachable state has: the addresses are allocated, no row object occurs
  twice in \<open>tableData\<close>, and \<open>originalData\<close> shares no row object with \<open>tableData\<close>.
\<close>

definition wf :: "table \<Rightarrow> bool" where
  "wf st \<longleftrightarrow>
     (\<forall>a \<in> set (tableData st). a < length (heap st)) \<and>
     (\<forall>a \<in> set (originalData st). a < length (heap st)) \<and>
     distinct (tableData st) \<and>
     set (tableData st) \<inter> set (originalData st) = {}"

text \<open>What holds in every reachable state (shown below).\<close>

definition table_inv :: "table \<Rightarrow> bool" where
  "table_inv st \<longleftrightarrow> wf st \<and> (dirtyRows st = [] \<longrightarrow> working st = original st) \<and>
     (\<forall>i \<in> set (dirtyRows st). i < length (tableData st)) \<and> \<not> isSaving st \<and> \<not> isDeleting st"

subsection \<open>Example records\<close>

definition row_old :: row where
  "row_old = [(''_id'', JStr ''65a1b2c3d4e5f60718293a4b''), (''name'', JStr ''Ann''),
              (''email'', JStr ''old@x.com'')]"

definition row_noid :: row where
  "row_noid = [(''name'', JStr ''Bob''), (''email'', JStr ''bob@x.com'')]"

section \<open>models/Patient.ts\<close>

text \<open>
  Values of a document as the API routes hand them to the MongoDB driver: the JSON values
  of the request, dates made by \<open>new Date()\<close> (milliseconds), and object ids.
\<close>

datatype dbvalue = Plain json | Date int | ObjectId string

type_synonym document = "dbvalue obj"

text \<open>
  Modelled from the spec: the \<open>ObjectId\<close> constructor belongs to the MongoDB driver, which is
  not part of the repository. By the spec an identifier is a token of 24 hex characters; the
  constructor throws on every other string.
\<close>

definition isHexChar :: "char \<Rightarrow> bool" where
  "isHexChar c = (c \<in> set ''0123456789abcdefABCDEF'')"

definition isObjectIdHex :: "string \<Rightarrow> bool" where
  "isObjectIdHex s = (length s = 24 \<and> list_all isHexChar s)"

definition toObjectId :: "string \<Rightarrow> thrown + dbvalue" where
  "toObjectId ident = (if isObjectIdHex ident then Inr (ObjectId ident) else Inl BSONError)"

text \<open>
  \<open>preparePatient\<close>: a copy of the record; a truthy string \<open>_id\<close> becomes an object id;
  \<open>createdAt\<close> is set when it is missing or falsy; \<open>updatedAt\<close> is always set. Both dates
  are read from the clock, \<open>now\<close>, taken as one reading per request.
\<close>

definition preparePatient :: "int \<Rightarrow> json obj \<Rightarrow> thrown + document" where
  "preparePatient now patient =
     (let prepared = map (\<lambda>(k, v). (k, Plain v)) patient;
          converted =
            (case map_of patient ''_id'' of
               Some (JStr ident) \<Rightarrow>
                 if ident \<noteq> []
                 then (case toObjectId ident of
                         Inl e \<Rightarrow> Inl e
                       | Inr oid \<Rightarrow> Inr (AList.update ''_id'' oid prepared))
                 else Inr prepared
             | _ \<Rightarrow> Inr prepared)
      in case converted of
           Inl e \<Rightarrow> Inl e
         | Inr prepared' \<Rightarrow>
             Inr (AList.update ''updatedAt'' (Date now)
                   (if has patient ''createdAt'' then prepared'
                    else AList.update ''createdAt'' (Date now) prepared')))"

section \<open>The API routes\<close>

text \<open>
  A route handler talks to the store only through the driver. The calls it makes are part
  of its result, in order; what the driver answers (a value, or an exception) is its input.
\<close>

datatype http_method = GET | PUT | POST | DELETE | OtherMethod

datatype dbcall =
    CountDocuments
  | Find
  | FindOne dbvalue
  | UpdateOne dbvalue document
  | DeleteOne dbvalue
  | BulkWrite "(dbvalue \<times> document) list"
  | InsertMany "document list"

record driver =
  getPatientsCollection :: "thrown + unit"
  countDocuments :: "thrown + nat"
  find :: "thrown + document list"
  findOne :: "thrown + document option"
  updateOne :: "thrown + nat"
  deleteOne :: "thrown + nat"
  bulkWrite :: "thrown + nat"
  insertMany :: "thrown + nat"

text \<open>
  The JSON body of a response: an \<open>error\<close> text, with \<open>details\<close> when an exception was
  caught; or the payload of a success (\<open>PatientJSON d\<close> is \<open>patientToJSON\<close> of the
  document \<open>d\<close>, \<open>NullJSON\<close> is \<open>patientToJSON(null)\<close>).
\<close>

datatype body =
    ErrorBody string
  | ErrorDetails string thrown
  | PatientList "document list" nat
  | PatientJSON document
  | NullJSON
  | SuccessBody
  | ModifiedBody nat
  | UploadedBody nat nat

record response =
  status :: nat
  json_body :: body

text \<open>A request body that should be an array of records.\<close>

datatype payload = NotArray | Array "json obj list"

text \<open>\<open>xs.map(f)\<close> with an \<open>f\<close> that may throw: the first exception ends the loop.\<close>

fun mapThrowing :: "('a \<Rightarrow> thrown + 'b) \<Rightarrow> 'a list \<Rightarrow> thrown + 'b list" where
  "mapThrowing f [] = Inr []"
| "mapThrowing f (x # xs) =
     (case f x of
        Inl e \<Rightarrow> Inl e
      | Inr y \<Rightarrow> (case mapThrowing f xs of Inl e \<Rightarrow> Inl e | Inr ys \<Rightarrow> Inr (y # ys)))"

subsection \<open>pages/api/patients/upload.ts\<close>



subsection \<open>pages/api/patients/index.ts\<close>

text \<open>
  One element of \<open>updateOperations\<close>: the filter \<open>{ _id: objectId }\<close> and the fields of
  \<open>$set\<close>, which are those of \<open>preparePatient(patient)\<close> without \<open>_id\<close>.
\<close>

definition updateOperation :: "int \<Rightarrow> json obj \<Rightarrow> thrown + dbvalue \<times> document" where
  "updateOperation now patient =
     (if \<not> has patient ''_id'' then Inl (Error ''Patient is missing _id field'')
      else
        (case (case map_of patient ''_id'' of
                 Some (JStr ident) \<Rightarrow> toObjectId ident
               | Some v \<Rightarrow> Inr (Plain v)
               | None \<Rightarrow> Inl TypeError) of
           Inl e \<Rightarrow> Inl e
         | Inr objectId \<Rightarrow>
             (case preparePatient now patient of
                Inl e \<Rightarrow> Inl e
              | Inr prepared \<Rightarrow> Inr (objectId, AList.delete ''_id'' prepared))))"

text \<open>
  The handler of \<open>/api/patients\<close>. Of the GET branch only the calls and the status are kept;
  the paging arithmetic on the query string plays no part below.
\<close>

definition handler_patients :: "driver \<Rightarrow> int \<Rightarrow> http_method \<Rightarrow> payload \<Rightarrow> response \<times> dbcall list" where
  "handler_patients db now m reqbody =
     (case getPatientsCollection db of
        Inl e \<Rightarrow> (\<lparr>status = 500, json_body = ErrorDetails ''Internal server error'' e\<rparr>, [])
      | Inr _ \<Rightarrow>
          if m = GET then
            (case countDocuments db of
               Inl e \<Rightarrow>
                 (\<lparr>status = 500, json_body = ErrorDetails ''Internal server error'' e\<rparr>,
                  [CountDocuments])
             | Inr totalCount \<Rightarrow>
                 (case find db of
                    Inl e \<Rightarrow>
                      (\<lparr>status = 500, json_body = ErrorDetails ''Internal server error'' e\<rparr>,
                       [CountDocuments, Find])
                  | Inr patients \<Rightarrow>
                      (\<lparr>status = 200, json_body = PatientList patients totalCount\<rparr>,
                       [CountDocuments, Find])))
          else if m = PUT then
            (case reqbody of
               NotArray \<Rightarrow> (\<lparr>status = 400, json_body = ErrorBody ''Expected array of patients''\<rparr>, [])
             | Array patients \<Rightarrow>
                 (case mapThrowing (updateOperation now) patients of
                    Inl e \<Rightarrow>
                      (\<lparr>status = 500, json_body = ErrorDetails ''Internal server error'' e\<rparr>, [])
                  | Inr updateOperations \<Rightarrow>
                      if length updateOperations > 0
                      then (case bulkWrite db of
                              Inl e \<Rightarrow>
                                (\<lparr>status = 500,
                                  json_body = ErrorDetails ''Internal server error'' e\<rparr>,
                                 [BulkWrite updateOperations])
                            | Inr modifiedCount \<Rightarrow>
                                (\<lparr>status = 200, json_body = ModifiedBody modifiedCount\<rparr>,
                                 [BulkWrite updateOperations]))
                      else (\<lparr>status = 200, json_body = ModifiedBody 0\<rparr>, [])))
          else (\<lparr>status = 405, json_body = ErrorBody ''Method not allowed''\<rparr>, []))"

subsection \<open>pages/api/patients/[id].ts\<close>

text \<open>\<open>req.query.id\<close>: missing, an array of strings, or a string.\<close>

datatype query_id = NoId | IdArray | Id string

text \<open>
  The three \<open>try\<close> blocks answer 400 to whatever is thrown inside them, the driver's own
  exceptions included. \<open>req.body\<close> is \<open>Some\<close> record, or \<open>None\<close> for a body that is
  \<open>null\<close> or no object: the PUT branch reads and assigns \<open>patientData._id\<close> before its
  \<open>try\<close> block, which throws a TypeError there, caught by the outer \<open>catch\<close>. The
  other branches do not look at the body.
\<close>

definition handler_patient_id ::
  "driver \<Rightarrow> int \<Rightarrow> http_method \<Rightarrow> query_id \<Rightarrow> json obj option
     \<Rightarrow> response \<times> dbcall list" where
  "handler_patient_id db now m q reqbody =
     (case q of
        NoId \<Rightarrow> (\<lparr>status = 400, json_body = ErrorBody ''Invalid patient ID''\<rparr>, [])
      | IdArray \<Rightarrow> (\<lparr>status = 400, json_body = ErrorBody ''Invalid patient ID''\<rparr>, [])
      | Id ident \<Rightarrow>
          if ident = [] then (\<lparr>status = 400, json_body = ErrorBody ''Invalid patient ID''\<rparr>, [])
          else
            (case getPatientsCollection db of
               Inl e \<Rightarrow> (\<lparr>status = 500, json_body = ErrorDetails ''Internal server error'' e\<rparr>, [])
             | Inr _ \<Rightarrow>
                 if m = GET then
                   (case toObjectId ident of
                      Inl e \<Rightarrow> (\<lparr>status = 400, json_body = ErrorBody ''Invalid patient ID format''\<rparr>, [])
                    | Inr oid \<Rightarrow>
                        (case findOne db of
                           Inl e \<Rightarrow>
                             (\<lparr>status = 400, json_body = ErrorBody ''Invalid patient ID format''\<rparr>,
                              [FindOne oid])
                         | Inr None \<Rightarrow>
                             (\<lparr>status = 404, json_body = ErrorBody ''Patient not found''\<rparr>,
                              [FindOne oid])
                         | Inr (Some patient) \<Rightarrow>
                             (\<lparr>status = 200, json_body = PatientJSON patient\<rparr>, [FindOne oid])))
                 else if m = PUT then
                   (case reqbody of
                      None \<Rightarrow>
                        (\<lparr>status = 500, json_body = ErrorDetails ''Internal server error'' TypeError\<rparr>,
                         [])
                    | Some patientData \<Rightarrow>
                    if has patientData ''_id'' \<and> map_of patientData ''_id'' \<noteq> Some (JStr ident)
                    then (\<lparr>status = 400, json_body = ErrorBody
                            ''Patient ID in the URL does not match the ID in the request body''\<rparr>, [])
                    else
                      (case toObjectId ident of
                         Inl e \<Rightarrow>
                           (\<lparr>status = 400, json_body = ErrorBody ''Invalid patient ID format''\<rparr>, [])
                       | Inr oid \<Rightarrow>
                           (case preparePatient now (AList.update ''_id'' (JStr ident) patientData) of
                              Inl e \<Rightarrow>
                                (\<lparr>status = 400, json_body = ErrorBody ''Invalid patient ID format''\<rparr>, [])
                            | Inr setFields \<Rightarrow>
                                (case updateOne db of
                                   Inl e \<Rightarrow>
                                     (\<lparr>status = 400,
                                       json_body = ErrorBody ''Invalid patient ID format''\<rparr>,
                                      [UpdateOne oid setFields])
                                 | Inr matchedCount \<Rightarrow>
                                     if matchedCount = 0
                                     then (\<lparr>status = 404, json_body = ErrorBody ''Patient not found''\<rparr>,
                                           [UpdateOne oid setFields])
                                     else
                                       (case findOne db of
                                          Inl e \<Rightarrow>
                                            (\<lparr>status = 400,
                                              json_body = ErrorBody ''Invalid patient ID format''\<rparr>,
                                             [UpdateOne oid setFields, FindOne oid])
                                        | Inr None \<Rightarrow>
                                            (\<lparr>status = 200, json_body = NullJSON\<rparr>,
                                             [UpdateOne oid setFields, FindOne oid])
                                        | Inr (Some updatedPatient) \<Rightarrow>
                                            (\<lparr>status = 200, json_body = PatientJSON updatedPatient\<rparr>,
                                             [UpdateOne oid setFields, FindOne oid]))))))
                 else if m = DELETE then
                   (case toObjectId ident of
                      Inl e \<Rightarrow> (\<lparr>status = 400, json_body = ErrorBody ''Invalid patient ID format''\<rparr>, [])
                    | Inr oid \<Rightarrow>
                        (case deleteOne db of
                           Inl e \<Rightarrow>
                             (\<lparr>status = 400, json_body = ErrorBody ''Invalid patient ID format''\<rparr>,
                              [DeleteOne oid])
                         | Inr deletedCount \<Rightarrow>
                             if deletedCount = 0
                             then (\<lparr>status = 404, json_body = ErrorBody ''Patient not found''\<rparr>,
                                   [DeleteOne oid])
                             else (\<lparr>status = 200, json_body = SuccessBody\<rparr>, [DeleteOne oid])))
                 else (\<lparr>status = 405, json_body = ErrorBody ''Method not allowed''\<rparr>, [])))"

text \<open>A client error is a status 4xx, a server error a status 5xx.\<close>

definition clientError :: "response \<Rightarrow> bool" where
  "clientError r = (400 \<le> status r \<and> status r < 500)"

definition serverError :: "response \<Rightarrow> bool" where
  "serverError r = (500 \<le> status r \<and> status r < 600)"

text \<open>
  What the \<open>$set\<close> of one update operation holds for a record of the request: no \<open>_id\<close>;
  \<open>updatedAt\<close> from the clock; \<open>createdAt\<close>, the record's own when it has a truthy one and
  from the clock otherwise; every other field of the record, and nothing else.
\<close>

definition setFieldsOk :: "int \<Rightarrow> json obj \<Rightarrow> document \<Rightarrow> bool" where
  "setFieldsOk now patient setFields \<longleftrightarrow>
     map_of setFields ''_id'' = None \<and>
     map_of setFields ''updatedAt'' = Some (Date now) \<and>
     map_of setFields ''createdAt'' =
       (if has patient ''createdAt'' then map_option Plain (map_of patient ''createdAt'')
        else Some (Date now)) \<and>
     (\<forall>k. k \<notin> {''_id'', ''createdAt'', ''updatedAt''} \<longrightarrow>
            map_of setFields k = map_option Plain (map_of patient k))"

section \<open>Example inputs\<close>

text \<open>A small worksheet, three PapaParse chunks, replies to DELETE requests, selections.\<close>

definition sheet0 :: worksheet where
  "sheet0 = [(1, [(1, CStr ''name''), (2, CStr '''')]),
             (2, [(1, CStr ''Ann''), (2, CNum ''3'')]),
             (3, [(1, CStr ''Bob'')])]"

text \<open>
  A worksheet whose header row has no cell in column 2: \<open>eachCell\<close> visits columns 1 and 3.
\<close>

definition sheet_gap :: worksheet where
  "sheet_gap = [(1, [(1, CStr ''name''), (3, CStr ''age'')]),
                (2, [(1, CStr ''Ann''), (2, CStr ''ann@x.com''), (3, CNum ''30'')])]"

text \<open>A worksheet of a header row and 101 data rows.\<close>

definition sheet_101 :: worksheet where
  "sheet_101 = (1, [(1, CStr ''n'')]) # map (\<lambda>k. (k, [(1, CNum (decimal k))])) [2..<103]"

definition papa_chunks0 :: "(row, string) papa_results list" where
  "papa_chunks0 =
     [\<lparr>results_data = [row_old], results_meta_fields = Some [''_id'', ''name'', ''email''],
       results_errors = Some []\<rparr>,
      \<lparr>results_data = [row_noid, row_old], results_meta_fields = Some [''_id'', ''name'', ''email''],
       results_errors = Some []\<rparr>,
      \<lparr>results_data = [row_noid], results_meta_fields = Some [''_id'', ''name'', ''email''],
       results_errors = Some []\<rparr>]"

definition row_b :: row where
  "row_b = [(''_id'', JStr ''65a1b2c3d4e5f60718293a4c''), (''name'', JStr ''Bob''),
            (''email'', JStr ''bob@x.com'')]"

definition all_deleted :: "nat \<Rightarrow> delete_reply" where
  "all_deleted k = DeleteStatus True"

definition first_deleted_only :: "nat \<Rightarrow> delete_reply" where
  "first_deleted_only k = DeleteStatus (k = 0)"

definition selected_first :: table where
  "selected_first = (load table_init [row_old, row_b])\<lparr>rowSelection := [0]\<rparr>"

definition selected_both :: table where
  "selected_both = (load table_init [row_old, row_b])\<lparr>rowSelection := [0, 1]\<rparr>"

definition selected_dirty :: table where
  "selected_dirty =
     (applyEdits (load table_init [row_old, row_b]) [(1, ''name'', JStr ''Rob'')])\<lparr>rowSelection := [0]\<rparr>"

text \<open>A driver that answers every call, and request records.\<close>

definition driver_up :: driver where
  "driver_up = \<lparr>getPatientsCollection = Inr (), countDocuments = Inr 2, find = Inr [],
                 findOne = Inr None, updateOne = Inr 1, deleteOne = Inr 1, bulkWrite = Inr 1,
                 insertMany = Inr 1\<rparr>"

definition patient_ann :: "json obj" where
  "patient_ann = [(''_id'', JStr ''65a1b2c3d4e5f60718293a4b''), (''name'', JStr ''Ann''),
                  (''createdAt'', JStr ''2024-01-01T00:00:00.000Z'')]"

definition patient_malformed :: "json obj" where
  "patient_malformed = [(''_id'', JStr ''xyz''), (''name'', JStr ''Ann'')]"

section \<open>Properties of the file parser\<close>

lemma batches_append: "batches (xs @ ys) = batches xs @ batches ys"
  by (induction xs rule: batches.induct) auto

lemma reportedTotals_append: "reportedTotals (xs @ ys) = reportedTotals xs @ reportedTotals ys"
  by (induction xs rule: reportedTotals.induct) auto

lemma loop_inv_init: "loop_inv [] excel_loop_init"
  by (simp add: loop_inv_def excel_loop_init_def CHUNK_SIZE_def)

lemma loop_inv_body:
  assumes "loop_inv rows s"
  shows "loop_inv (rows @ decodeRows hs [r]) (eachRow_body hs fs r s)"
proof (cases "fst r = 1")
  case True
  with assms show ?thesis by (simp add: eachRow_body_def decodeRows_def)
next
  case False
  from assms have rows: "rows = concat (batches (emitted s)) @ currentChunk s"
    by (simp add: loop_inv_def)
  show ?thesis
    using assms False unfolding rows
    by (auto simp: loop_inv_def eachRow_body_def decodeRows_def Let_def batches_append
        reportedTotals_append)
qed

lemma loop_inv_fold:
  "loop_inv rows s \<Longrightarrow> loop_inv (rows @ decodeRows hs ws) (fold (eachRow_body hs fs) ws s)"
proof (induction ws arbitrary: rows s)
  case Nil
  then show ?case by (simp add: decodeRows_def)
next
  case (Cons r ws)
  have "decodeRows hs (r # ws) = decodeRows hs [r] @ decodeRows hs ws"
    by (simp add: decodeRows_def)
  with Cons.IH [OF loop_inv_body [OF Cons.prems, of hs r fs]] show ?case
    by simp
qed

lemma flush_batches:
  "batches (flushAndComplete fs s) =
     batches (emitted s) @ (if currentChunk s = [] then [] else [currentChunk s])"
  by (simp add: flushAndComplete_def batches_append)

lemma flush_totals:
  "reportedTotals (flushAndComplete fs s) = reportedTotals (emitted s) @ [xl_totalRows s]"
  by (simp add: flushAndComplete_def reportedTotals_append)

lemma loop_inv_flush:
  assumes "loop_inv rows (s :: 'e excel_loop)"
  shows "cadence CHUNK_SIZE (batches (flushAndComplete fs s)) \<and>
         concat (batches (flushAndComplete fs s)) = rows \<and>
         reportedTotals (flushAndComplete fs s) = [length rows]"
proof (cases "currentChunk s = []")
  case True
  with assms show ?thesis
    by (auto simp: loop_inv_def flush_batches flush_totals cadence_def CHUNK_SIZE_def
        dest: in_set_butlastD)
next
  case False
  with assms show ?thesis
    by (auto simp: loop_inv_def flush_batches flush_totals cadence_def butlast_append)
qed

lemma excel_cadence:
  fixes ws :: worksheet and others :: "worksheet list"
  defines "cb \<equiv> (parseExcelFile (Workbook (ws # others)) :: (cellvalue obj, 'e) callback list)"
  shows "cadence CHUNK_SIZE (batches cb) \<and> concat (batches cb) = dataRows ws \<and>
         reportedTotals cb = [length (dataRows ws)]"
proof -
  let ?hs = "headersOf (getRow ws 1)" and ?fs = "allFieldsOf (getRow ws 1)"
  let ?s = "fold (eachRow_body ?hs ?fs) ws (excel_loop_init :: 'e excel_loop)"
  have "loop_inv ([] @ decodeRows ?hs ws) ?s"
    by (rule loop_inv_fold [OF loop_inv_init])
  then have "loop_inv (dataRows ws) ?s"
    by (simp add: dataRows_def decodeRows_def)
  from loop_inv_flush [OF this, of ?fs] show ?thesis
    by (simp add: cb_def Let_def)
qed

lemma runWorker_batches:
  "batches (map onmessage (runWorker w cs PapaComplete)) = map results_data cs"
  by (induction cs arbitrary: w) (auto simp: chunk_def Let_def complete_def)

lemma runWorker_totals:
  "reportedTotals (map onmessage (runWorker w cs PapaComplete)) =
     [w_totalRows w + sum_list (map (\<lambda>c. length (results_data c)) cs)]"
  by (induction cs arbitrary: w) (auto simp: chunk_def Let_def complete_def)

lemma length_concat_sum: "length (concat xss) = sum_list (map length xss)"
  by (induction xss) auto


lemma headersOf_nth: "i < length cs \<Longrightarrow> headersOf cs ! i = headerName (cs ! i)"
  by (simp add: headersOf_def)

lemma no_gap_fst:
  assumes "map fst cs = [1..<Suc (length cs)]" and "i < length cs"
  shows "fst (cs ! i) = Suc i"
proof -
  have "fst (cs ! i) = map fst cs ! i" using assms(2) by simp
  also have "\<dots> = [1..<Suc (length cs)] ! i" by (simp only: assms(1))
  also have "\<dots> = Suc i" using assms(2) by (simp del: upt_Suc)
  finally show ?thesis .
qed

text \<open>
  Claim C7 at a header row with a missing cell, and at an empty header name of a delimited
  file. Spreadsheet: row 1 has \<open>name\<close> in column 1, nothing in column 2 and \<open>age\<close> in
  column 3, so \<open>eachCell\<close> visits columns 1 and 3 only. The headers are \<open>name\<close> and
  \<open>age\<close>: no \<open>Column2\<close> is made, the data cell of column 2 is stored under \<open>age\<close> and
  the data cell of column 3 is dropped. Delimited: the empty header name of column index 1
  goes out as the empty name, not as \<open>Column2\<close>.
\<close>

theorem header_gap_misnamed:
  "headersOf (getRow sheet_gap 1) = [''name'', ''age''] \<and>
   ''Column2'' \<notin> set (headersOf (getRow sheet_gap 1)) \<and>
   (parseExcelFile (Workbook [sheet_gap]) :: (cellvalue obj, string) callback list) =
     [OnChunk \<lparr>data = [[(''name'', CStr ''Ann''), (''age'', CStr ''ann@x.com'')]],
               result_fields = [''name'', ''age''], errors = []\<rparr>,
      OnComplete \<lparr>data = [[(''name'', CStr ''Ann''), (''age'', CStr ''ann@x.com'')]],
                  result_fields = [''name'', ''age''], errors = [], totalRows = 1\<rparr>] \<and>
   chunkFields (parseCSVFile
      [\<lparr>results_data = [[(''name'', JStr ''Ann''), ('''', JNum 3)]],
        results_meta_fields = Some [''name'', ''''], results_errors = Some ([] :: unit list)\<rparr>]
      PapaComplete) = [[''name'', '''']]"
  by code_simp

text \<open>
  Header names of the spreadsheet variant when \<open>eachCell\<close> hands over the header cells of
  columns 1, 2, ..., n, none left out: the field name of column index \<open>i\<close> (0-based) is
  \<open>Column{i+1}\<close> if the header cell has no value or an empty text, and the cell's text
  otherwise, and a data cell of that column is stored under that name.
\<close>

theorem header_synthesis:
  fixes hcells :: "cell list"
  assumes "map fst hcells = [1..<Suc (length hcells)]" and "i < length hcells"
  shows "headersOf hcells ! i =
           (case toString (snd (hcells ! i)) of
              None \<Rightarrow> ''Column'' @ decimal (i + 1)
            | Some s \<Rightarrow> if s = [] then ''Column'' @ decimal (i + 1) else s) \<and>
         rowDataOf (headersOf hcells) [(i + 1, v)] = [(headersOf hcells ! i, v)]"
proof -
  have c: "fst (hcells ! i) = Suc i" by (rule no_gap_fst [OF assms(1,2)])
  have a: "headersOf hcells ! i =
           (case toString (snd (hcells ! i)) of
              None \<Rightarrow> ''Column'' @ decimal (i + 1)
            | Some s \<Rightarrow> if s = [] then ''Column'' @ decimal (i + 1) else s)"
    using assms(2) c by (simp add: headersOf_nth headerName_def split: option.splits)
  have b: "rowDataOf (headersOf hcells) [(i + 1, v)] = [(headersOf hcells ! i, v)]"
    using assms(2) by (simp add: rowDataOf_def setCell_def headersOf_def)
  from a b show ?thesis by blast
qed

lemma decimal_2: "decimal 2 = ''2''"
  by (simp add: decimal.simps [of 2] digit_char_def)

theorem header_synthesis_witness:
  "map fst [(1, CStr ''name''), (2, CStr '''')] = [1..<Suc (length [(1::nat, CStr ''name''), (2, CStr '''')])] \<and>
   (1::nat) < length [(1::nat, CStr ''name''), (2, CStr '''')] \<and>
   headersOf [(1, CStr ''name''), (2, CStr '''')] ! 1 = ''Column2'' \<and>
   rowDataOf (headersOf [(1, CStr ''name''), (2, CStr '''')]) [(2, CNum ''3'')] = [(''Column2'', CNum ''3'')]"
proof -
  have h1: "map fst [(1, CStr ''name''), (2, CStr '''')] = [1..<Suc (length [(1::nat, CStr ''name''), (2, CStr '''')])]"
    by (simp add: upt_rec)
  have h2: "(1::nat) < length [(1::nat, CStr ''name''), (2, CStr '''')]" by simp
  have e1: "headersOf [(1, CStr ''name''), (2, CStr '''')] ! 1 = ''Column2''"
    by (simp add: headersOf_def headerName_def decimal_2)
  have e2: "rowDataOf (headersOf [(1, CStr ''name''), (2, CStr '''')]) [(2, CNum ''3'')] = [(''Column2'', CNum ''3'')]"
    by (simp add: rowDataOf_def setCell_def headersOf_def headerName_def decimal_2)
  from header_synthesis [OF h1 h2, of "CNum ''3''"]
  show ?thesis using h1 h2 e1 e2 by simp
qed

text \<open>
  Claim C2, as the code has it. Spreadsheet variant, for every worksheet: each batch handed
  to \<open>onChunk\<close> has exactly \<open>CHUNK_SIZE\<close> = 100 rows except the last, which is not empty
  and not longer; the batches, in order, are the decoded data rows in order; and the
  \<open>totalRows\<close> reported is the sum of the batch sizes. Delimited variant, for every sequence
  of PapaParse chunks: the batches are the chunks' rows, chunk by chunk in order, whatever
  their sizes, and the \<open>totalRows\<close> reported is the sum of the batch sizes.
\<close>

theorem batch_cadence:
  fixes ws :: worksheet and others :: "worksheet list"
    and chunks :: "('r, 'e) papa_results list"
  defines "excel \<equiv> (parseExcelFile (Workbook (ws # others)) :: (cellvalue obj, 'e) callback list)"
    and "csv \<equiv> parseCSVFile chunks PapaComplete"
  shows "cadence CHUNK_SIZE (batches excel) \<and>
         concat (batches excel) = dataRows ws \<and>
         reportedTotals excel = [sum_list (map length (batches excel))] \<and>
         batches csv = map results_data chunks \<and>
         reportedTotals csv = [sum_list (map length (batches csv))]"
proof -
  have x: "cadence CHUNK_SIZE (batches excel)" "concat (batches excel) = dataRows ws"
    "reportedTotals excel = [length (dataRows ws)]"
    using excel_cadence [of ws others, where ?'e = 'e] by (simp_all add: excel_def)
  have "length (dataRows ws) = sum_list (map length (batches excel))"
    using x(2) length_concat_sum [of "batches excel"] by simp
  with x have xt: "reportedTotals excel = [sum_list (map length (batches excel))]" by simp
  have c1: "batches csv = map results_data chunks"
    by (simp add: csv_def parseCSVFile_def runWorker_batches)
  have c2: "reportedTotals csv = [sum_list (map length (batches csv))]"
    unfolding c1 by (simp add: csv_def parseCSVFile_def runWorker_totals worker_init_def comp_def)
  from x(1) x(2) xt c1 c2 show ?thesis by blast
qed

theorem batch_cadence_witness:
  "cadence CHUNK_SIZE (batches (parseExcelFile (Workbook [sheet0]) :: (cellvalue obj, string) callback list)) \<and>
   concat (batches (parseExcelFile (Workbook [sheet0]) :: (cellvalue obj, string) callback list)) =
     [[(''name'', CStr ''Ann''), (''Column2'', CNum ''3'')], [(''name'', CStr ''Bob'')]] \<and>
   reportedTotals (parseExcelFile (Workbook [sheet0]) :: (cellvalue obj, string) callback list) = [2] \<and>
   batches (parseCSVFile papa_chunks0 PapaComplete) = [[row_old], [row_noid, row_old], [row_noid]] \<and>
   reportedTotals (parseCSVFile papa_chunks0 PapaComplete) = [4] \<and>
   cadence CHUNK_SIZE (batches (parseExcelFile (Workbook [sheet_101]) :: (cellvalue obj, string) callback list)) \<and>
   map length (batches (parseExcelFile (Workbook [sheet_101]) :: (cellvalue obj, string) callback list))
     = [100, 1]"
proof -
  let ?x = "parseExcelFile (Workbook [sheet0]) :: (cellvalue obj, string) callback list"
  let ?y = "parseExcelFile (Workbook [sheet_101]) :: (cellvalue obj, string) callback list"
  let ?c = "parseCSVFile papa_chunks0 PapaComplete"
  have d: "dataRows sheet0 = [[(''name'', CStr ''Ann''), (''Column2'', CNum ''3'')], [(''name'', CStr ''Bob'')]]"
    by (simp add: dataRows_def sheet0_def getRow_def headersOf_def headerName_def rowDataOf_def
        setCell_def decimal_2)
  note t = batch_cadence [of sheet0 "[]" papa_chunks0]
  from t have t1: "cadence CHUNK_SIZE (batches ?x)" by (rule conjunct1)
  from t have t2: "concat (batches ?x) = dataRows sheet0" by blast
  from t have t3: "reportedTotals ?x = [sum_list (map length (batches ?x))]" by blast
  from t have t4: "batches ?c = map results_data papa_chunks0" by blast
  from t have t5: "reportedTotals ?c = [sum_list (map length (batches ?c))]" by blast
  have "sum_list (map length (batches ?x)) = length (concat (batches ?x))"
    by (simp only: length_concat_sum)
  also have "\<dots> = 2" unfolding t2 d by simp
  finally have x3: "reportedTotals ?x = [2]" using t3 by (simp only:)
  have c4: "batches ?c = [[row_old], [row_noid, row_old], [row_noid]]"
    unfolding t4 by (simp add: papa_chunks0_def)
  have c5: "reportedTotals ?c = [4]" unfolding t5 c4 by simp
  note u = batch_cadence [of sheet_101 "[]" papa_chunks0]
  from u have u1: "cadence CHUNK_SIZE (batches ?y)" by (rule conjunct1)
  have u2: "map length (batches ?y) = [100, 1]" by code_simp
  from t1 t2 [unfolded d] x3 c4 c5 u1 u2 show ?thesis by blast
qed

text \<open>
  Claim C2 as stated fails for the delimited variant: chunks of 1, 2 and 1 rows go out as
  batches of 1, 2 and 1 rows, so the batches before the last have neither 100 rows nor any
  common size.
\<close>

theorem csv_cadence_counterexample:
  "map length (batches (parseCSVFile papa_chunks0 PapaComplete)) = [1, 2, 1] \<and>
   \<not> cadence 100 (batches (parseCSVFile papa_chunks0 PapaComplete))"
proof -
  have "batches (parseCSVFile papa_chunks0 PapaComplete) = map results_data papa_chunks0"
    by (simp add: parseCSVFile_def runWorker_batches)
  then show ?thesis by (simp add: papa_chunks0_def cadence_def)
qed

section \<open>Properties of the patient table\<close>

lemma rowsAt_append:
  "\<forall>a \<in> set refs. a < length h \<Longrightarrow> rowsAt (h @ rs) refs = rowsAt h refs"
  by (simp add: rowsAt_def nth_append)

lemma rowsAt_fresh: "rowsAt (h @ rs) [length h..<length h + length rs] = rs"
  unfolding rowsAt_def by (rule nth_equalityI) (simp_all add: nth_append)

lemma rowsAt_update_other:
  "a \<notin> set refs \<Longrightarrow> rowsAt (h[a := r]) refs = rowsAt h refs"
proof -
  assume "a \<notin> set refs"
  then have "\<forall>x \<in> set refs. h[a := r] ! x = h ! x"
    by (metis nth_list_update_neq)
  then show ?thesis by (simp add: rowsAt_def)
qed

lemma rowsAt_update_at:
  assumes "distinct refs" and "i < length refs" and "refs ! i < length h"
  shows "rowsAt (h[refs ! i := r]) refs = (rowsAt h refs)[i := r]"
proof (rule nth_equalityI)
  show "length (rowsAt (h[refs ! i := r]) refs) = length ((rowsAt h refs)[i := r])"
    by (simp add: rowsAt_def)
next
  fix j assume "j < length (rowsAt (h[refs ! i := r]) refs)"
  then have j: "j < length refs" by (simp add: rowsAt_def)
  show "rowsAt (h[refs ! i := r]) refs ! j = (rowsAt h refs)[i := r] ! j"
  proof (cases "j = i")
    case True
    with assms show ?thesis by (simp add: rowsAt_def)
  next
    case False
    with assms(1,2) j have "refs ! j \<noteq> refs ! i" by (simp add: nth_eq_iff_index_eq)
    with False j show ?thesis by (simp add: rowsAt_def)
  qed
qed

lemma parseRows_props:
  assumes "parseRows h rows = (h', refs)"
  shows "h' = h @ rows" "refs = [length h..<length h + length rows]"
    "rowsAt h' refs = rows" "distinct refs" "\<forall>a \<in> set refs. length h \<le> a \<and> a < length h'"
  using assms by (auto simp: parseRows_def rowsAt_fresh)

lemma jsonCopy_props:
  assumes "jsonCopy h old = (h', refs)" and "\<forall>a \<in> set old. a < length h"
  shows "h' = h @ rowsAt h old" "rowsAt h' refs = rowsAt h old" "rowsAt h' old = rowsAt h old"
    "distinct refs" "\<forall>a \<in> set refs. length h \<le> a \<and> a < length h'" "set refs \<inter> set old = {}"
proof -
  from assms(1) have p: "parseRows h (rowsAt h old) = (h', refs)" by (simp add: jsonCopy_def)
  note pp = parseRows_props [OF p]
  show "h' = h @ rowsAt h old" by (rule pp(1))
  show "rowsAt h' refs = rowsAt h old" by (rule pp(3))
  show "rowsAt h' old = rowsAt h old" unfolding pp(1) by (rule rowsAt_append [OF assms(2)])
  show "distinct refs" by (rule pp(4))
  show "\<forall>a \<in> set refs. length h \<le> a \<and> a < length h'" by (rule pp(5))
  then have "\<forall>a \<in> set refs. a \<notin> set old" using assms(2) by (meson not_le)
  then show "set refs \<inter> set old = {}" by blast
qed

lemma loadEffect_props:
  assumes "\<forall>a \<in> set d. a < length (heap st)" and "distinct d"
  shows "wf (loadEffect st d)" "working (loadEffect st d) = rowsAt (heap st) d"
    "original (loadEffect st d) = rowsAt (heap st) d" "dirtyRows (loadEffect st d) = []"
    "isSaving (loadEffect st d) = isSaving st" "isDeleting (loadEffect st d) = isDeleting st"
proof -
  obtain h' refs where c: "jsonCopy (heap st) d = (h', refs)" by (cases "jsonCopy (heap st) d")
  note p = jsonCopy_props [OF c assms(1)]
  have e: "loadEffect st d = st\<lparr>heap := h', tableData := d, originalData := refs,
                         dirtyRows := [], rowSelection := []\<rparr>"
    by (simp add: loadEffect_def c)
  from p(1) have len: "length (heap st) \<le> length h'" by simp
  show "wf (loadEffect st d)"
    unfolding e wf_def using assms p(5,6) len by (auto simp: Int_commute)
  show "working (loadEffect st d) = rowsAt (heap st) d" unfolding e working_def using p(3) by simp
  show "original (loadEffect st d) = rowsAt (heap st) d" unfolding e original_def using p(2) by simp
  show "dirtyRows (loadEffect st d) = []" "isSaving (loadEffect st d) = isSaving st"
    "isDeleting (loadEffect st d) = isDeleting st" unfolding e by simp_all
qed

lemma load_props:
  shows "wf (load st rows)" "working (load st rows) = rows" "original (load st rows) = rows"
    "dirtyRows (load st rows) = []" "isSaving (load st rows) = isSaving st"
    "isDeleting (load st rows) = isDeleting st"
proof -
  obtain h d where c: "parseRows (heap st) rows = (h, d)" by (cases "parseRows (heap st) rows")
  note p = parseRows_props [OF c]
  have e: "load st rows = loadEffect (st\<lparr>heap := h\<rparr>) d" by (simp add: load_def c)
  have a: "\<forall>a \<in> set d. a < length (heap (st\<lparr>heap := h\<rparr>))" using p(5) by simp
  note l = loadEffect_props [OF a p(4)]
  show "wf (load st rows)" unfolding e by (rule l(1))
  show "working (load st rows) = rows" unfolding e using l(2) p(3) by simp
  show "original (load st rows) = rows" unfolding e using l(3) p(3) by simp
  show "dirtyRows (load st rows) = []" unfolding e by (rule l(4))
  show "isSaving (load st rows) = isSaving st" unfolding e using l(5) by simp
  show "isDeleting (load st rows) = isDeleting st" unfolding e using l(6) by simp
qed

lemma updateData_props:
  assumes "wf st" and "updateData st i c v = Inr st'"
  shows "i < length (tableData st)" "wf st'"
    "working st' = (working st)[i := AList.update c v (working st ! i)]"
    "original st' = original st" "set (dirtyRows st') = insert i (set (dirtyRows st))"
    "tableData st' = tableData st" "originalData st' = originalData st"
    "isSaving st' = isSaving st" "isDeleting st' = isDeleting st" "rowSelection st' = rowSelection st"
proof -
  from assms(2) show i: "i < length (tableData st)"
    by (auto simp: updateData_def split: if_splits)
  let ?a = "tableData st ! i"
  from assms(2) i have e: "st' = st\<lparr>heap := (heap st)[?a := AList.update c v (heap st ! ?a)],
                       dirtyRows := Set_add (dirtyRows st) i\<rparr>"
    by (simp add: updateData_def Let_def)
  from i have m: "?a \<in> set (tableData st)" by simp
  with assms(1) have a: "?a < length (heap st)" "?a \<notin> set (originalData st)" "distinct (tableData st)"
    unfolding wf_def by blast+
  show "wf st'" unfolding e using assms(1) by (simp add: wf_def)
  show "working st' = (working st)[i := AList.update c v (working st ! i)]"
    unfolding e working_def using rowsAt_update_at [OF a(3) i a(1)] i by (simp add: rowsAt_def)
  show "original st' = original st"
    unfolding e original_def using rowsAt_update_other [OF a(2)] by simp
  show "set (dirtyRows st') = insert i (set (dirtyRows st))"
    unfolding e by (auto simp: Set_add_def)
  show "tableData st' = tableData st" "originalData st' = originalData st"
    "isSaving st' = isSaving st" "isDeleting st' = isDeleting st" "rowSelection st' = rowSelection st"
    unfolding e by simp_all
qed

lemma revert_props:
  assumes "wf st"
  shows "wf (handleRevertChanges st)" "working (handleRevertChanges st) = original st"
    "original (handleRevertChanges st) = original st" "dirtyRows (handleRevertChanges st) = []"
    "isSaving (handleRevertChanges st) = isSaving st" "isDeleting (handleRevertChanges st) = isDeleting st"
proof -
  obtain h' refs where c: "jsonCopy (heap st) (originalData st) = (h', refs)"
    by (cases "jsonCopy (heap st) (originalData st)")
  from assms have v: "\<forall>a \<in> set (originalData st). a < length (heap st)" by (simp add: wf_def)
  note p = jsonCopy_props [OF c v]
  have e: "handleRevertChanges st = st\<lparr>heap := h', tableData := refs, dirtyRows := []\<rparr>"
    by (simp add: handleRevertChanges_def c)
  from p(1) have len: "length (heap st) \<le> length h'" by simp
  show "wf (handleRevertChanges st)"
    unfolding e wf_def using v p(4,5,6) len by auto
  show "working (handleRevertChanges st) = original st"
    unfolding e working_def original_def using p(2) by simp
  show "original (handleRevertChanges st) = original st"
    unfolding e original_def using p(3) by simp
  show "dirtyRows (handleRevertChanges st) = []" "isSaving (handleRevertChanges st) = isSaving st"
    "isDeleting (handleRevertChanges st) = isDeleting st" unfolding e by simp_all
qed


lemma save_cases:
  obtains
    (unchanged) reqs n where "handleSaveChanges st reply = (st\<lparr>isSaving := False\<rparr>, reqs, n)"
  | (saved) h copy rows m where "reply = PutOk m" "modifiedRows st (dirtyRows st) = Inr rows"
      "rows \<noteq> []" "jsonCopy (heap st) (tableData st) = (h, copy)"
      "handleSaveChanges st reply =
         (st\<lparr>heap := h, originalData := copy, dirtyRows := [], isSaving := False\<rparr>,
          [PUT_patients rows], Success (''Saved '' @ decimal m @ '' changes!''))"
proof (cases "modifiedRows st (dirtyRows st)")
  case (Inl e)
  then show ?thesis by (intro unchanged) (simp add: handleSaveChanges_def)
next
  case (Inr rows)
  show ?thesis
  proof (cases "rows = []")
    case True
    with Inr show ?thesis by (intro unchanged) (simp add: handleSaveChanges_def)
  next
    case False
    show ?thesis
    proof (cases reply)
      case (PutRejected msg)
      with Inr False show ?thesis by (intro unchanged) (simp add: handleSaveChanges_def)
    next
      case (PutNotOk err)
      with Inr False show ?thesis by (intro unchanged) (simp add: handleSaveChanges_def)
    next
      case (PutOk m)
      obtain h copy where c: "jsonCopy (heap st) (tableData st) = (h, copy)"
        by (cases "jsonCopy (heap st) (tableData st)")
      with Inr False PutOk show ?thesis
        by (intro saved [of m rows h copy]) (simp_all add: handleSaveChanges_def)
    qed
  qed
qed

lemma wf_flags [simp]:
  "wf (st\<lparr>isSaving := b\<rparr>) = wf st" "wf (st\<lparr>isDeleting := b\<rparr>) = wf st"
  "wf (st\<lparr>rowSelection := sel\<rparr>) = wf st"
  by (simp_all add: wf_def)

lemma views_flags [simp]:
  "working (st\<lparr>isSaving := b\<rparr>) = working st" "working (st\<lparr>isDeleting := b\<rparr>) = working st"
  "working (st\<lparr>rowSelection := sel\<rparr>) = working st"
  "original (st\<lparr>isSaving := b\<rparr>) = original st" "original (st\<lparr>isDeleting := b\<rparr>) = original st"
  "original (st\<lparr>rowSelection := sel\<rparr>) = original st"
  by (simp_all add: working_def original_def)

lemma save_saved_props:
  assumes "wf st" and "jsonCopy (heap st) (tableData st) = (h, copy)"
  defines "st' \<equiv> st\<lparr>heap := h, originalData := copy, dirtyRows := [], isSaving := False\<rparr>"
  shows "wf st'" "working st' = working st" "original st' = working st"
proof -
  from assms(1) have v: "\<forall>a \<in> set (tableData st). a < length (heap st)" by (simp add: wf_def)
  note p = jsonCopy_props [OF assms(2) v]
  from p(1) have len: "length (heap st) \<le> length h" by simp
  show "wf st'" unfolding st'_def wf_def using assms(1) v p(5,6) len
    by (auto simp: wf_def Int_commute)
  show "working st' = working st" unfolding st'_def working_def using p(3) by simp
  show "original st' = working st" unfolding st'_def working_def original_def using p(2) by simp
qed

lemma inv_save:
  assumes "table_inv st"
  shows "table_inv (fst (handleSaveChanges st reply))"
proof (cases rule: save_cases [of st reply])
  case (unchanged reqs n)
  with assms show ?thesis by (simp add: table_inv_def)
next
  case (saved h copy rows m)
  from assms have w: "wf st" by (simp add: table_inv_def)
  from save_saved_props [OF w saved(4)] assms show ?thesis
    unfolding saved(5) by (simp add: table_inv_def)
qed

lemma delete_cases:
  obtains
    (unchanged) reqs n where
      "handleDeleteSelected st confirm reply settle refreshed = (st\<lparr>isDeleting := False\<rparr>, reqs, n)"
  | (deselected) reqs n where
      "handleDeleteSelected st confirm reply settle refreshed =
         (st\<lparr>rowSelection := [], isDeleting := False\<rparr>, reqs, n)"
  | (refreshed) ids d h fresh h' copy where "startDeletes (selectedRows st) = (ids, None)"
      "promiseAll settle (map (\<lambda>k. rejection (ids ! k) (reply k)) [0..<length ids]) = None"
      "refreshed = GetBody d"
      "parseRows (heap st) (refreshedRows d) = (h, fresh)"
      "jsonCopy h fresh = (h', copy)"
      "handleDeleteSelected st confirm reply settle refreshed =
         (st\<lparr>heap := h', tableData := fresh, originalData := copy,
             dirtyRows := [], rowSelection := [], isDeleting := False\<rparr>,
          map DELETE_patient ids @ [GET_patients],
          Some (Success (''Deleted '' @ decimal (length (selectedRows st)) @ '' record(s) successfully'')))"
proof (cases "length (selectedRows st) = 0 \<or> \<not> confirm")
  case True
  then have "handleDeleteSelected st confirm reply settle refreshed =
      (st\<lparr>isDeleting := False\<rparr>, [],
       if length (selectedRows st) = 0 then Some (Failure (Error ''No rows selected'')) else None)"
    by (auto simp: handleDeleteSelected_def)
  then show ?thesis by (rule unchanged)
next
  case False
  obtain ids e where sd: "startDeletes (selectedRows st) = (ids, e)"
    by (cases "startDeletes (selectedRows st)")
  show ?thesis
  proof (cases e)
    case (Some x)
    with False sd show ?thesis by (intro unchanged) (simp add: handleDeleteSelected_def)
  next
    case None
    note e = this
    show ?thesis
    proof (cases "promiseAll settle (map (\<lambda>k. rejection (ids ! k) (reply k)) [0..<length ids])")
      case (Some x)
      with False sd e show ?thesis by (intro unchanged) (simp add: handleDeleteSelected_def)
    next
      case None
      note pa = this
      show ?thesis
      proof (cases refreshed)
        case (GetRejected msg)
        with False sd e pa show ?thesis by (intro deselected) (simp add: handleDeleteSelected_def)
      next
        case (GetBody d)
        obtain h fresh where p: "parseRows (heap st) (refreshedRows d) = (h, fresh)"
          by (cases "parseRows (heap st) (refreshedRows d)")
        obtain h' copy where c: "jsonCopy h fresh = (h', copy)" by (cases "jsonCopy h fresh")
        from False sd e pa GetBody p c show ?thesis
          by (intro refreshed [of ids d h fresh h' copy]) (simp_all add: handleDeleteSelected_def)
      qed
    qed
  qed
qed

lemma delete_refreshed_props:
  assumes "parseRows (heap st) rows = (h, fresh)" and "jsonCopy h fresh = (h', copy)"
  defines "st' \<equiv> st\<lparr>heap := h', tableData := fresh, originalData := copy,
             dirtyRows := [], rowSelection := [], isDeleting := False\<rparr>"
  shows "wf st'" "working st' = rows" "original st' = rows"
proof -
  note p = parseRows_props [OF assms(1)]
  from p(5) have v: "\<forall>a \<in> set fresh. a < length h" by simp
  note c = jsonCopy_props [OF assms(2) v]
  from c(1) have len: "length h \<le> length h'" by simp
  show "wf st'" unfolding st'_def wf_def using v p(4) c(5,6) len by (auto simp: Int_commute)
  show "working st' = rows" unfolding st'_def working_def using c(3) p(3) by simp
  show "original st' = rows" unfolding st'_def original_def using c(2) p(3) by simp
qed

lemma inv_delete:
  assumes "table_inv st"
  shows "table_inv (fst (handleDeleteSelected st confirm reply settle refreshed))"
proof (cases rule: delete_cases [of st confirm reply settle refreshed])
  case (unchanged reqs n)
  with assms show ?thesis by (simp add: table_inv_def)
next
  case (deselected reqs n)
  with assms show ?thesis by (simp add: table_inv_def)
next
  case (refreshed ids d h fresh h' copy)
  from delete_refreshed_props [OF refreshed(4,5)] assms show ?thesis
    unfolding refreshed(6) by (simp add: table_inv_def)
qed

lemma inv_edit:
  assumes "table_inv st" and "updateData st i c v = Inr st'"
  shows "table_inv st'"
proof -
  from assms(1) have w: "wf st" by (simp add: table_inv_def)
  note p = updateData_props [OF w assms(2)]
  from p(5) have "dirtyRows st' \<noteq> []" by auto
  with assms(1) p show ?thesis by (auto simp: table_inv_def)
qed

lemma inv_reachable: "reachable st \<Longrightarrow> table_inv st"
proof (induction rule: reachable.induct)
  case r_init
  show ?case by (simp add: table_inv_def wf_def table_init_def working_def original_def)
next
  case (r_load st rows)
  with load_props [of st rows] show ?case by (simp add: table_inv_def)
next
  case (r_edit st i c v st')
  then show ?case by (simp add: inv_edit)
next
  case (r_save st reply)
  then show ?case by (simp add: inv_save)
next
  case (r_revert st)
  then have w: "wf st" by (simp add: table_inv_def)
  from revert_props [OF w] r_revert.IH show ?case by (simp add: table_inv_def)
next
  case (r_delete st confirm dreply settle refreshed)
  then show ?case by (simp add: inv_delete)
next
  case (r_select st sel)
  then show ?case by (simp add: table_inv_def)
qed

lemma reachable_applyEdits: "reachable st \<Longrightarrow> reachable (applyEdits st es)"
proof (induction es arbitrary: st)
  case Nil
  then show ?case by simp
next
  case (Cons e es)
  obtain i c v where e: "e = (i, c, v)" by (cases e)
  show ?case
  proof (cases "updateData st i c v")
    case (Inl a)
    with Cons e show ?thesis by simp
  next
    case (Inr st')
    with Cons.prems have "reachable st'" by (rule r_edit)
    with Cons.IH Inr e show ?thesis by simp
  qed
qed

lemma original_applyEdits: "wf st \<Longrightarrow> wf (applyEdits st es) \<and> original (applyEdits st es) = original st"
proof (induction es arbitrary: st)
  case Nil
  then show ?case by simp
next
  case (Cons e es)
  obtain i c v where e: "e = (i, c, v)" by (cases e)
  show ?case
  proof (cases "updateData st i c v")
    case (Inl a)
    with Cons e show ?thesis by simp
  next
    case (Inr st')
    note p = updateData_props [OF Cons.prems Inr]
    from Cons.IH [OF p(2)] p(4) Inr e show ?thesis by simp
  qed
qed

text \<open>
  Claim C9: for a valid row index, \<open>updateData\<close> succeeds and changes only the named field
  of that row of the working copy; the other rows, the other fields of the row, the number
  of rows and the original snapshot stay as they were.
\<close>

theorem edit_frame:
  assumes "reachable st" and "rowIndex < length (tableData st)"
  shows "\<exists>st'. updateData st rowIndex columnId v = Inr st' \<and>
           working st' = (working st)[rowIndex := AList.update columnId v (working st ! rowIndex)] \<and>
           length (working st') = length (working st) \<and>
           (\<forall>j. j \<noteq> rowIndex \<longrightarrow> working st' ! j = working st ! j) \<and>
           (\<forall>k. k \<noteq> columnId \<longrightarrow>
                 map_of (working st' ! rowIndex) k = map_of (working st ! rowIndex) k) \<and>
           map_of (working st' ! rowIndex) columnId = Some v \<and>
           original st' = original st"
proof -
  from assms(1) have w: "wf st" using inv_reachable by (simp add: table_inv_def)
  obtain st' where u: "updateData st rowIndex columnId v = Inr st'"
    using assms(2) by (simp add: updateData_def Let_def)
  note p = updateData_props [OF w u]
  from assms(2) have l: "rowIndex < length (working st)" by (simp add: working_def rowsAt_def)
  have "length (working st') = length (working st)" using p(3) by simp
  moreover have "\<forall>j. j \<noteq> rowIndex \<longrightarrow> working st' ! j = working st ! j" using p(3) by simp
  moreover have "\<forall>k. k \<noteq> columnId \<longrightarrow>
                 map_of (working st' ! rowIndex) k = map_of (working st ! rowIndex) k"
    using p(3) l by (simp add: update_conv')
  moreover have "map_of (working st' ! rowIndex) columnId = Some v"
    using p(3) l by (simp add: update_conv')
  ultimately show ?thesis using u p(3,4) by blast
qed

theorem edit_frame_witness:
  "reachable (load table_init [row_old, row_noid]) \<and>
   0 < length (tableData (load table_init [row_old, row_noid])) \<and>
   (\<exists>st'. updateData (load table_init [row_old, row_noid]) 0 ''email'' (JStr ''new@x.com'') = Inr st' \<and>
      working st' = [[(''_id'', JStr ''65a1b2c3d4e5f60718293a4b''), (''name'', JStr ''Ann''),
                      (''email'', JStr ''new@x.com'')], row_noid] \<and>
      original st' = [row_old, row_noid])"
proof -
  let ?L = "load table_init [row_old, row_noid]"
  have r: "reachable ?L" by (rule r_load [OF r_init])
  have l: "0 < length (tableData ?L)"
    by (simp add: load_def parseRows_def loadEffect_def jsonCopy_def table_init_def)
  from edit_frame [OF r l, of "''email''" "JStr ''new@x.com''"] r l show ?thesis
    by (auto simp: load_props row_old_def)
qed


lemma reachable_inv: "reachable st \<Longrightarrow> wf st \<and> \<not> isSaving st \<and> \<not> isDeleting st \<and>
    (\<forall>i \<in> set (dirtyRows st). i < length (tableData st))"
  using inv_reachable by (simp add: table_inv_def)

lemma flag_same [simp]: "\<not> isSaving st \<Longrightarrow> st\<lparr>isSaving := False\<rparr> = st"
  "\<not> isDeleting st \<Longrightarrow> st\<lparr>isDeleting := False\<rparr> = st"
  by simp_all


lemma load_eval:
  "load table_init rows =
     \<lparr>heap = rows @ rows, tableData = [0..<length rows],
      dirtyRows = [], originalData = [length rows..<length rows + length rows],
      rowSelection = [], isSaving = False, isDeleting = False\<rparr>"
proof -
  have "rowsAt rows [0..<length rows] = rows"
    using rowsAt_fresh [of "[]" rows] by simp
  then show ?thesis
    by (simp add: load_def parseRows_def loadEffect_def jsonCopy_def table_init_def)
qed



lemma modifiedRows_missing_id:
  assumes "\<forall>i \<in> set ds. i < length (tableData st)"
    and "\<exists>i \<in> set ds. \<not> has (working st ! i) ''_id''"
  shows "modifiedRows st ds = Inl (Error ''Cannot update row without _id'')"
  using assms by (induction ds) (auto simp: Let_def)

text \<open>
  Claim C3: when some dirty row has no (truthy) \<open>_id\<close>, \<open>handleSaveChanges\<close> fails with
  the error \<open>Cannot update row without _id\<close>, sends no request, whatever the server would
  have answered, and leaves the whole state, working copy and dirty set included, as it was.
\<close>

theorem save_missing_identifier:
  assumes "reachable st" and "\<exists>i \<in> set (dirtyRows st). \<not> has (working st ! i) ''_id''"
  shows "handleSaveChanges st reply = (st, [], Failure (Error ''Cannot update row without _id''))"
proof -
  note i = reachable_inv [OF assms(1)]
  from i have "modifiedRows st (dirtyRows st) = Inl (Error ''Cannot update row without _id'')"
    using assms(2) by (intro modifiedRows_missing_id) simp_all
  with i show ?thesis by (simp add: handleSaveChanges_def)
qed

theorem save_missing_identifier_witness:
  "reachable (applyEdits (load table_init [row_old, row_noid]) [(1, ''email'', JStr ''b@x.com'')]) \<and>
   dirtyRows (applyEdits (load table_init [row_old, row_noid]) [(1, ''email'', JStr ''b@x.com'')]) = [1] \<and>
   \<not> has (working (applyEdits (load table_init [row_old, row_noid]) [(1, ''email'', JStr ''b@x.com'')]) ! 1) ''_id'' \<and>
   handleSaveChanges (applyEdits (load table_init [row_old, row_noid]) [(1, ''email'', JStr ''b@x.com'')]) (PutOk 1)
     = (applyEdits (load table_init [row_old, row_noid]) [(1, ''email'', JStr ''b@x.com'')], [],
        Failure (Error ''Cannot update row without _id''))"
proof -
  let ?S = "applyEdits (load table_init [row_old, row_noid]) [(1, ''email'', JStr ''b@x.com'')]"
  have r: "reachable ?S" by (rule reachable_applyEdits [OF r_load [OF r_init]])
  have d: "dirtyRows ?S = [1]"
    by (simp add: load_eval updateData_def Let_def Set_add_def)
  have h: "\<not> has (working ?S ! 1) ''_id''"
    by (simp add: load_eval updateData_def Let_def working_def rowsAt_def has_def row_noid_def)
  from d h have e: "\<exists>i \<in> set (dirtyRows ?S). \<not> has (working ?S ! i) ''_id''" by simp
  from save_missing_identifier [OF r e, of "PutOk 1"] r d h show ?thesis by blast
qed

text \<open>
  Claim C4: after any sequence of edits, \<open>handleRevertChanges\<close> makes the working copy
  equal to the original snapshot the edits started from and empties the dirty set, leaving
  the snapshot as it was; the snapshot is the loaded records after a load and the working
  copy after a save that succeeded; and in a state whose dirty set is empty a revert changes
  neither the working copy, nor the snapshot, nor the dirty set. It is a total function:
  there is no failure case.
\<close>

theorem revert_restores:
  assumes "reachable st"
  shows "working (handleRevertChanges (applyEdits st es)) = original st \<and>
         original (handleRevertChanges (applyEdits st es)) = original st \<and>
         dirtyRows (handleRevertChanges (applyEdits st es)) = [] \<and>
         original (load st rows) = rows \<and>
         (handleSaveChanges st (PutOk m) = (st', [PUT_patients sent], n) \<longrightarrow> original st' = working st) \<and>
         (dirtyRows st = [] \<longrightarrow>
            working (handleRevertChanges st) = working st \<and>
            original (handleRevertChanges st) = original st \<and>
            dirtyRows (handleRevertChanges st) = dirtyRows st)"
proof -
  from assms have i: "table_inv st" by (rule inv_reachable)
  then have w: "wf st" by (simp add: table_inv_def)
  from original_applyEdits [OF w, of es]
  have we: "wf (applyEdits st es)" and oe: "original (applyEdits st es) = original st" by simp_all
  note re = revert_props [OF we]
  note r = revert_props [OF w]
  have a: "working (handleRevertChanges (applyEdits st es)) = original st" using re(2) oe by simp
  have b: "original (handleRevertChanges (applyEdits st es)) = original st" using re(3) oe by simp
  have c: "dirtyRows (handleRevertChanges (applyEdits st es)) = []" by (rule re(4))
  have d: "original (load st rows) = rows" by (rule load_props)
  have e: "handleSaveChanges st (PutOk m) = (st', [PUT_patients sent], n) \<longrightarrow> original st' = working st"
  proof
    assume s: "handleSaveChanges st (PutOk m) = (st', [PUT_patients sent], n)"
    then obtain h copy where c: "jsonCopy (heap st) (tableData st) = (h, copy)"
      and e: "st' = st\<lparr>heap := h, originalData := copy, dirtyRows := [], isSaving := False\<rparr>"
      by (auto simp: handleSaveChanges_def split: sum.splits if_splits prod.splits)
    from save_saved_props(3) [OF w c] e show "original st' = working st" by simp
  qed
  have f: "dirtyRows st = [] \<longrightarrow>
            working (handleRevertChanges st) = working st \<and>
            original (handleRevertChanges st) = original st \<and>
            dirtyRows (handleRevertChanges st) = dirtyRows st"
    using i r by (simp add: table_inv_def)
  from a b c d e f show ?thesis by blast
qed

theorem revert_restores_witness:
  "reachable (load table_init [row_old, row_noid]) \<and>
   working (applyEdits (load table_init [row_old, row_noid])
      [(0, ''email'', JStr ''new@x.com''), (1, ''name'', JStr ''Rob''), (5, ''name'', JStr ''x'')])
     = [[(''_id'', JStr ''65a1b2c3d4e5f60718293a4b''), (''name'', JStr ''Ann''), (''email'', JStr ''new@x.com'')],
        [(''name'', JStr ''Rob''), (''email'', JStr ''bob@x.com'')]] \<and>
   working (handleRevertChanges (applyEdits (load table_init [row_old, row_noid])
      [(0, ''email'', JStr ''new@x.com''), (1, ''name'', JStr ''Rob''), (5, ''name'', JStr ''x'')]))
     = [row_old, row_noid] \<and>
   dirtyRows (handleRevertChanges (applyEdits (load table_init [row_old, row_noid])
      [(0, ''email'', JStr ''new@x.com''), (1, ''name'', JStr ''Rob''), (5, ''name'', JStr ''x'')])) = []"
proof -
  let ?L = "load table_init [row_old, row_noid]"
  let ?es = "[(0, ''email'', JStr ''new@x.com''), (1, ''name'', JStr ''Rob''), (5, ''name'', JStr ''x'')]"
  have r: "reachable ?L" by (rule r_load [OF r_init])
  have o: "original ?L = [row_old, row_noid]" by (rule load_props)
  have e: "working (applyEdits ?L ?es)
     = [[(''_id'', JStr ''65a1b2c3d4e5f60718293a4b''), (''name'', JStr ''Ann''), (''email'', JStr ''new@x.com'')],
        [(''name'', JStr ''Rob''), (''email'', JStr ''bob@x.com'')]]"
    by (simp add: load_eval updateData_def Let_def Set_add_def working_def rowsAt_def
        row_old_def row_noid_def)
  from revert_restores [OF r, of ?es] o r e show ?thesis by simp
qed

lemma startDeletes_ok:
  assumes "\<forall>i \<in> set sel. i < length (tableData st) \<and> has (working st ! i) ''_id''"
  shows "startDeletes (map (\<lambda>i. if i < length (tableData st) then Some (working st ! i) else None) sel)
           = (map (\<lambda>i. idText (working st ! i)) sel, None)"
  using assms by (induction sel) auto

lemma firstRejection_None:
  "firstRejection settle ps = None \<longleftrightarrow> (\<forall>p \<in> set ps. snd p = None)"
  by (induction settle ps rule: firstRejection.induct) (auto split: option.splits)

lemma firstRejection_Some:
  "firstRejection settle ps = Some (k, e) \<Longrightarrow> (k, Some e) \<in> set ps"
  by (induction settle ps arbitrary: k e rule: firstRejection.induct)
    (auto split: option.splits if_splits)

lemma promiseAll_None: "promiseAll settle ps = None \<longleftrightarrow> (\<forall>p \<in> set ps. p = None)"
proof -
  have "map snd (zip [0..<length ps] ps) = ps" by (simp add: map_snd_zip)
  then have "set ps = snd ` set (zip [0..<length ps] ps)" by (metis set_map)
  then have "(\<forall>p \<in> set (zip [0..<length ps] ps). snd p = None) \<longleftrightarrow> (\<forall>p \<in> set ps. p = None)"
    by simp
  then show ?thesis by (simp add: promiseAll_def firstRejection_None)
qed

lemma promiseAll_Some:
  assumes "promiseAll settle ps = Some e"
  shows "\<exists>k < length ps. ps ! k = Some e"
proof -
  from assms obtain k where "firstRejection settle (zip [0..<length ps] ps) = Some (k, e)"
    by (auto simp: promiseAll_def)
  then have "(k, Some e) \<in> set (zip [0..<length ps] ps)" by (rule firstRejection_Some)
  then show ?thesis by (auto simp: set_zip)
qed

text \<open>
  Claim C5, as the code has it, for a non-empty selection of rows that all carry an \<open>_id\<close>.
  If the dialog is not confirmed, nothing is sent and nothing changes. If it is, one DELETE
  request goes out per selected row, in order. If every one is answered ok, the list is
  fetched again: when the refresh delivers, the working copy and the original snapshot become
  the fetched records (none, if the body has no \<open>data\<close>) and the dirty set and the
  selection are emptied as a whole; when the refresh is rejected, only the selection is
  emptied and the error of the refresh is shown. If any DELETE is not answered ok, the state
  stays exactly as it was and the error of one failed request is shown. In no case does a row
  enter the dirty set.
\<close>

theorem delete_selected:
  fixes reply :: "nat \<Rightarrow> delete_reply" and settle :: "nat \<Rightarrow> nat" and refreshed :: get_reply
    and confirm :: bool
  assumes "reachable st" and "rowSelection st \<noteq> []"
    and "\<forall>i \<in> set (rowSelection st). i < length (tableData st) \<and> has (working st ! i) ''_id''"
  defines "ids \<equiv> map (\<lambda>i. idText (working st ! i)) (rowSelection st)"
    and "res \<equiv> handleDeleteSelected st confirm reply settle refreshed"
  shows "(\<not> confirm \<longrightarrow> res = (st, [], None)) \<and>
         (confirm \<and> (\<forall>k < length ids. reply k = DeleteStatus True) \<longrightarrow>
            fst (snd res) = map DELETE_patient ids @ [GET_patients] \<and>
            (\<forall>d. refreshed = GetBody d \<longrightarrow>
                   working (fst res) = refreshedRows d \<and> original (fst res) = refreshedRows d \<and>
                   dirtyRows (fst res) = [] \<and> rowSelection (fst res) = []) \<and>
            (\<forall>msg. refreshed = GetRejected msg \<longrightarrow>
                   fst res = st\<lparr>rowSelection := []\<rparr> \<and>
                   snd (snd res) = Some (Failure (Error msg)))) \<and>
         (confirm \<and> (\<exists>k < length ids. reply k \<noteq> DeleteStatus True) \<longrightarrow>
            fst (snd res) = map DELETE_patient ids \<and> fst res = st \<and>
            (\<exists>k < length ids. \<exists>e. rejection (ids ! k) (reply k) = Some e \<and>
                                 snd (snd res) = Some (Failure e))) \<and>
         set (dirtyRows (fst res)) \<subseteq> set (dirtyRows st)"
proof -
  note i = reachable_inv [OF assms(1)]
  let ?ps = "map (\<lambda>k. rejection (ids ! k) (reply k)) [0..<length ids]"
  have sel: "selectedRows st \<noteq> []" using assms(2) by (simp add: selectedRows_def)
  have sd: "startDeletes (selectedRows st) = (ids, None)"
    unfolding selectedRows_def ids_def by (rule startDeletes_ok [OF assms(3)])
  have rej: "\<And>k. rejection (ids ! k) (reply k) = None \<longleftrightarrow> reply k = DeleteStatus True"
  proof -
    fix k show "rejection (ids ! k) (reply k) = None \<longleftrightarrow> reply k = DeleteStatus True"
      by (cases "reply k") auto
  qed
  have none: "promiseAll settle ?ps = None \<longleftrightarrow> (\<forall>k < length ids. reply k = DeleteStatus True)"
    by (auto simp: promiseAll_None rej)
  have no: "\<not> confirm \<longrightarrow> res = (st, [], None)"
    using sel i by (simp add: res_def handleDeleteSelected_def)
  have ok: "confirm \<and> (\<forall>k < length ids. reply k = DeleteStatus True) \<longrightarrow>
            fst (snd res) = map DELETE_patient ids @ [GET_patients] \<and>
            (\<forall>d. refreshed = GetBody d \<longrightarrow>
                   working (fst res) = refreshedRows d \<and> original (fst res) = refreshedRows d \<and>
                   dirtyRows (fst res) = [] \<and> rowSelection (fst res) = []) \<and>
            (\<forall>msg. refreshed = GetRejected msg \<longrightarrow>
                   fst res = st\<lparr>rowSelection := []\<rparr> \<and>
                   snd (snd res) = Some (Failure (Error msg)))"
  proof
    assume a: "confirm \<and> (\<forall>k < length ids. reply k = DeleteStatus True)"
    with none have pa: "promiseAll settle ?ps = None" by simp
    show "fst (snd res) = map DELETE_patient ids @ [GET_patients] \<and>
            (\<forall>d. refreshed = GetBody d \<longrightarrow>
                   working (fst res) = refreshedRows d \<and> original (fst res) = refreshedRows d \<and>
                   dirtyRows (fst res) = [] \<and> rowSelection (fst res) = []) \<and>
            (\<forall>msg. refreshed = GetRejected msg \<longrightarrow>
                   fst res = st\<lparr>rowSelection := []\<rparr> \<and>
                   snd (snd res) = Some (Failure (Error msg)))"
    proof (cases refreshed)
      case (GetRejected msg)
      have "res = (st\<lparr>rowSelection := [], isDeleting := False\<rparr>,
                   map DELETE_patient ids @ [GET_patients], Some (Failure (Error msg)))"
        using a sel sd pa GetRejected by (simp add: res_def handleDeleteSelected_def)
      with i GetRejected show ?thesis by simp
    next
      case (GetBody d)
      obtain h fresh where p: "parseRows (heap st) (refreshedRows d) = (h, fresh)"
        by (cases "parseRows (heap st) (refreshedRows d)")
      obtain h' copy where c: "jsonCopy h fresh = (h', copy)" by (cases "jsonCopy h fresh")
      have r: "res = (st\<lparr>heap := h', tableData := fresh, originalData := copy,
                         dirtyRows := [], rowSelection := [], isDeleting := False\<rparr>,
                      map DELETE_patient ids @ [GET_patients],
                      Some (Success (''Deleted '' @ decimal (length (selectedRows st))
                                     @ '' record(s) successfully'')))"
        using a sel sd pa p c GetBody
        by (simp add: res_def handleDeleteSelected_def refreshedRows_def)
      from delete_refreshed_props [OF p c] GetBody show ?thesis
        unfolding r by simp
    qed
  qed
  have bad: "confirm \<and> (\<exists>k < length ids. reply k \<noteq> DeleteStatus True) \<longrightarrow>
            fst (snd res) = map DELETE_patient ids \<and> fst res = st \<and>
            (\<exists>k < length ids. \<exists>e. rejection (ids ! k) (reply k) = Some e \<and>
                                 snd (snd res) = Some (Failure e))"
  proof
    assume a: "confirm \<and> (\<exists>k < length ids. reply k \<noteq> DeleteStatus True)"
    with none obtain e where pa: "promiseAll settle ?ps = Some e" by auto
    from promiseAll_Some [OF pa] obtain k where k: "k < length ids" "rejection (ids ! k) (reply k) = Some e"
      by auto
    have r: "res = (st\<lparr>isDeleting := False\<rparr>, map DELETE_patient ids, Some (Failure e))"
      using a sel sd pa by (simp add: res_def handleDeleteSelected_def)
    with i k show "fst (snd res) = map DELETE_patient ids \<and> fst res = st \<and>
            (\<exists>k < length ids. \<exists>e. rejection (ids ! k) (reply k) = Some e \<and>
                                 snd (snd res) = Some (Failure e))"
      by auto
  qed
  have sub: "set (dirtyRows (fst res)) \<subseteq> set (dirtyRows st)"
  proof (cases confirm)
    case False
    with no show ?thesis by simp
  next
    case True
    show ?thesis
    proof (cases "\<forall>k < length ids. reply k = DeleteStatus True")
      case all: True
      show ?thesis
      proof (cases refreshed)
        case (GetRejected msg)
        with ok True all show ?thesis by simp
      next
        case (GetBody d)
        with ok True all show ?thesis by simp
      qed
    next
      case False
      with bad True show ?thesis by auto
    qed
  qed
  from no ok bad sub show ?thesis by blast
qed


text \<open>
  Claim C5 as stated fails: rows 0 and 1 selected, the DELETE of row 0 answered ok and that
  of row 1 not ok; the successfully deleted row 0 is still in the working copy and in the
  original snapshot.
\<close>

theorem partial_delete_counterexample:
  "first_deleted_only 0 = DeleteStatus True \<and>
   fst (snd (handleDeleteSelected selected_both True first_deleted_only id (GetBody (Some [row_b]))))
     = [DELETE_patient ''65a1b2c3d4e5f60718293a4b'', DELETE_patient ''65a1b2c3d4e5f60718293a4c''] \<and>
   working (fst (handleDeleteSelected selected_both True first_deleted_only id (GetBody (Some [row_b]))))
     = [row_old, row_b] \<and>
   original (fst (handleDeleteSelected selected_both True first_deleted_only id (GetBody (Some [row_b]))))
     = [row_old, row_b] \<and>
   snd (snd (handleDeleteSelected selected_both True first_deleted_only id (GetBody (Some [row_b]))))
     = Some (Failure (Error ''Failed to delete record with ID 65a1b2c3d4e5f60718293a4c''))"
  by code_simp


theorem delete_selected_witness:
  "reachable selected_first \<and> rowSelection selected_first \<noteq> [] \<and>
   fst (snd (handleDeleteSelected selected_first True all_deleted id (GetBody (Some [row_b]))))
     = [DELETE_patient ''65a1b2c3d4e5f60718293a4b'', GET_patients] \<and>
   working (fst (handleDeleteSelected selected_first True all_deleted id (GetBody (Some [row_b])))) = [row_b] \<and>
   original (fst (handleDeleteSelected selected_first True all_deleted id (GetBody (Some [row_b])))) = [row_b] \<and>
   dirtyRows (fst (handleDeleteSelected selected_first True all_deleted id (GetBody (Some [row_b])))) = [] \<and>
   handleDeleteSelected selected_first False all_deleted id (GetBody (Some [row_b]))
     = (selected_first, [], None) \<and>
   reachable selected_both \<and> rowSelection selected_both \<noteq> [] \<and>
   fst (handleDeleteSelected selected_both True first_deleted_only id (GetBody (Some [row_b])))
     = selected_both \<and>
   reachable selected_dirty \<and> dirtyRows selected_dirty = [1] \<and>
   fst (handleDeleteSelected selected_dirty True all_deleted id (GetRejected ''offline''))
     = selected_dirty\<lparr>rowSelection := []\<rparr> \<and>
   snd (snd (handleDeleteSelected selected_dirty True all_deleted id (GetRejected ''offline'')))
     = Some (Failure (Error ''offline''))"
proof -
  have r1: "reachable selected_first" unfolding selected_first_def
    by (rule r_select [OF r_load [OF r_init]])
  have r2: "reachable selected_both" unfolding selected_both_def
    by (rule r_select [OF r_load [OF r_init]])
  have r3: "reachable selected_dirty" unfolding selected_dirty_def
    by (rule r_select [OF reachable_applyEdits [OF r_load [OF r_init]]])
  have n1: "rowSelection selected_first \<noteq> []" by (simp add: selected_first_def)
  have n2: "rowSelection selected_both \<noteq> []" by (simp add: selected_both_def)
  have n3: "rowSelection selected_dirty \<noteq> []" by (simp add: selected_dirty_def)
  have d3: "dirtyRows selected_dirty = [1]" by code_simp
  have h1: "\<forall>i \<in> set (rowSelection selected_first).
              i < length (tableData selected_first) \<and> has (working selected_first ! i) ''_id''"
    by code_simp
  have h2: "\<forall>i \<in> set (rowSelection selected_both).
              i < length (tableData selected_both) \<and> has (working selected_both ! i) ''_id''"
    by code_simp
  have h3: "\<forall>i \<in> set (rowSelection selected_dirty).
              i < length (tableData selected_dirty) \<and> has (working selected_dirty ! i) ''_id''"
    by code_simp
  have i1: "map (\<lambda>i. idText (working selected_first ! i)) (rowSelection selected_first)
              = [''65a1b2c3d4e5f60718293a4b'']"
    by code_simp
  have i2: "map (\<lambda>i. idText (working selected_both ! i)) (rowSelection selected_both)
              = [''65a1b2c3d4e5f60718293a4b'', ''65a1b2c3d4e5f60718293a4c'']"
    by code_simp
  have i3: "map (\<lambda>i. idText (working selected_dirty ! i)) (rowSelection selected_dirty)
              = [''65a1b2c3d4e5f60718293a4b'']"
    by code_simp
  have f: "\<exists>k < length [''65a1b2c3d4e5f60718293a4b'', ''65a1b2c3d4e5f60718293a4c''].
             first_deleted_only k \<noteq> DeleteStatus True"
    by (rule exI [of _ 1]) (simp add: first_deleted_only_def)
  note a = delete_selected [OF r1 n1 h1, of True all_deleted id "GetBody (Some [row_b])", unfolded i1]
  note a0 = delete_selected [OF r1 n1 h1, of False all_deleted id "GetBody (Some [row_b])", unfolded i1]
  note b = delete_selected [OF r2 n2 h2, of True first_deleted_only id "GetBody (Some [row_b])", unfolded i2]
  note c = delete_selected [OF r3 n3 h3, of True all_deleted id "GetRejected ''offline''", unfolded i3]
  from a have a': "fst (snd (handleDeleteSelected selected_first True all_deleted id (GetBody (Some [row_b]))))
     = [DELETE_patient ''65a1b2c3d4e5f60718293a4b'', GET_patients] \<and>
   working (fst (handleDeleteSelected selected_first True all_deleted id (GetBody (Some [row_b])))) = [row_b] \<and>
   original (fst (handleDeleteSelected selected_first True all_deleted id (GetBody (Some [row_b])))) = [row_b] \<and>
   dirtyRows (fst (handleDeleteSelected selected_first True all_deleted id (GetBody (Some [row_b])))) = []"
    by (simp add: all_deleted_def refreshedRows_def)
  from a0 have a0': "handleDeleteSelected selected_first False all_deleted id (GetBody (Some [row_b]))
     = (selected_first, [], None)" by simp
  from b f have b': "fst (handleDeleteSelected selected_both True first_deleted_only id (GetBody (Some [row_b])))
     = selected_both" by blast
  from c have c': "fst (handleDeleteSelected selected_dirty True all_deleted id (GetRejected ''offline''))
     = selected_dirty\<lparr>rowSelection := []\<rparr> \<and>
   snd (snd (handleDeleteSelected selected_dirty True all_deleted id (GetRejected ''offline'')))
     = Some (Failure (Error ''offline''))"
    by (simp add: all_deleted_def)
  from r1 r2 r3 n1 n2 d3 a' a0' b' c' show ?thesis by blast
qed

section \<open>Properties of the API routes\<close>



lemma isObjectIdHex_nonempty: "isObjectIdHex ident \<Longrightarrow> ident \<noteq> []"
  by (auto simp: isObjectIdHex_def)

lemma map_of_Plain:
  "map_of (map (\<lambda>(k, v). (k, Plain v)) al) k = map_option Plain (map_of al k)"
  by (induction al) auto

lemma updateOperation_valid:
  assumes "map_of patient ''_id'' = Some (JStr ident)" and "isObjectIdHex ident"
  shows "\<exists>setFields. updateOperation now patient = Inr (ObjectId ident, setFields) \<and>
           setFieldsOk now patient setFields"
proof -
  from assms have h: "has patient ''_id''" by (auto simp: has_def isObjectIdHex_nonempty)
  let ?prepared = "map (\<lambda>(k, v). (k, Plain v)) patient"
  let ?c = "AList.update ''_id'' (ObjectId ident) ?prepared"
  let ?fields = "AList.update ''updatedAt'' (Date now)
                   (if has patient ''createdAt'' then ?c else AList.update ''createdAt'' (Date now) ?c)"
  have pp: "preparePatient now patient = Inr ?fields"
    using assms by (simp add: preparePatient_def toObjectId_def isObjectIdHex_nonempty Let_def)
  have u: "updateOperation now patient = Inr (ObjectId ident, AList.delete ''_id'' ?fields)"
    using assms h pp by (simp add: updateOperation_def toObjectId_def)
  have c: "has patient ''createdAt'' \<Longrightarrow> map_of patient ''createdAt'' \<noteq> None"
    by (auto simp: has_def split: option.splits)
  have "setFieldsOk now patient (AList.delete ''_id'' ?fields)"
    unfolding setFieldsOk_def using c
    by (auto simp: delete_conv' update_conv' map_of_Plain)
  with u show ?thesis by blast
qed

lemma mapThrowing_Inr:
  assumes "\<forall>x \<in> set xs. \<exists>y. f x = Inr y \<and> P x y"
  shows "\<exists>ys. mapThrowing f xs = Inr ys \<and> length ys = length xs \<and>
               (\<forall>i < length xs. P (xs ! i) (ys ! i))"
  using assms
proof (induction xs)
  case Nil
  then show ?case by simp
next
  case (Cons x xs)
  then obtain y where y: "f x = Inr y" "P x y" by auto
  from Cons obtain ys where ys: "mapThrowing f xs = Inr ys" "length ys = length xs"
    "\<forall>i < length xs. P (xs ! i) (ys ! i)" by auto
  have "\<forall>i < length (x # xs). P ((x # xs) ! i) ((y # ys) ! i)"
  proof (intro allI impI)
    fix i assume "i < length (x # xs)"
    with y(2) ys(3) show "P ((x # xs) ! i) ((y # ys) ! i)" by (cases i) auto
  qed
  with y ys show ?case by simp
qed

text \<open>
  Claim C6, as the code has it: for a non-empty list of records that each carry a well-formed
  \<open>_id\<close>, the bulk update hands the driver one \<open>bulkWrite\<close> with one operation per record,
  in order, filtered on the record's id. The fields it sets leave out the \<open>_id\<close> only:
  they hold \<open>updatedAt\<close> from the server's clock, \<open>createdAt\<close> (the record's own value
  if it has one, the server's clock otherwise) and every other field of the record. The
  answer is status 200 with the \<open>modifiedCount\<close> the driver reports.
\<close>

theorem bulk_update_fields:
  assumes "\<forall>p \<in> set patients. \<exists>ident. map_of p ''_id'' = Some (JStr ident) \<and> isObjectIdHex ident"
    and "patients \<noteq> []"
    and "getPatientsCollection db = Inr ()" and "bulkWrite db = Inr modifiedCount"
  shows "\<exists>ops. handler_patients db now PUT (Array patients) =
                  (\<lparr>status = 200, json_body = ModifiedBody modifiedCount\<rparr>, [BulkWrite ops]) \<and>
               length ops = length patients \<and>
               (\<forall>i < length patients.
                  (\<exists>ident. map_of (patients ! i) ''_id'' = Some (JStr ident) \<and>
                           fst (ops ! i) = ObjectId ident) \<and>
                  setFieldsOk now (patients ! i) (snd (ops ! i)))"
proof -
  let ?P = "\<lambda>p op. (\<exists>ident. map_of p ''_id'' = Some (JStr ident) \<and> fst op = ObjectId ident) \<and>
                    setFieldsOk now p (snd op)"
  have "\<forall>p \<in> set patients. \<exists>op. updateOperation now p = Inr op \<and> ?P p op"
  proof
    fix p assume "p \<in> set patients"
    with assms(1) obtain ident where i: "map_of p ''_id'' = Some (JStr ident)" "isObjectIdHex ident"
      by blast
    from updateOperation_valid [OF i, of now] obtain setFields where
      "updateOperation now p = Inr (ObjectId ident, setFields)" "setFieldsOk now p setFields" by blast
    with i(1) show "\<exists>op. updateOperation now p = Inr op \<and> ?P p op" by auto
  qed
  from mapThrowing_Inr [of patients "updateOperation now" ?P, OF this]
  obtain ops where ops: "mapThrowing (updateOperation now) patients = Inr ops"
    "length ops = length patients" "\<forall>i < length patients. ?P (patients ! i) (ops ! i)" by blast
  from ops(2) assms(2) have "length ops > 0" by simp
  with ops(1) assms(3,4) have "handler_patients db now PUT (Array patients) =
                  (\<lparr>status = 200, json_body = ModifiedBody modifiedCount\<rparr>, [BulkWrite ops])"
    by (simp add: handler_patients_def)
  with ops(2,3) show ?thesis by blast
qed

theorem bulk_update_fields_witness:
  "map_of patient_ann ''_id'' = Some (JStr ''65a1b2c3d4e5f60718293a4b'') \<and>
   isObjectIdHex ''65a1b2c3d4e5f60718293a4b'' \<and>
   [patient_ann] \<noteq> [] \<and>
   getPatientsCollection driver_up = Inr () \<and> bulkWrite driver_up = Inr 1 \<and>
   handler_patients driver_up 1700 PUT (Array [patient_ann]) =
     (\<lparr>status = 200, json_body = ModifiedBody 1\<rparr>,
      [BulkWrite
        [(ObjectId ''65a1b2c3d4e5f60718293a4b'',
          [(''name'', Plain (JStr ''Ann'')),
           (''createdAt'', Plain (JStr ''2024-01-01T00:00:00.000Z'')),
           (''updatedAt'', Date 1700)])]]) \<and>
   setFieldsOk 1700 patient_ann
     [(''name'', Plain (JStr ''Ann'')),
      (''createdAt'', Plain (JStr ''2024-01-01T00:00:00.000Z'')),
      (''updatedAt'', Date 1700)]"
proof -
  have h1: "map_of patient_ann ''_id'' = Some (JStr ''65a1b2c3d4e5f60718293a4b'')"
    by (simp add: patient_ann_def)
  have h2: "isObjectIdHex ''65a1b2c3d4e5f60718293a4b''" by code_simp
  have h: "\<forall>p \<in> set [patient_ann].
             \<exists>ident. map_of p ''_id'' = Some (JStr ident) \<and> isObjectIdHex ident"
    using h1 h2 by simp
  have n: "[patient_ann] \<noteq> []" by simp
  have c: "getPatientsCollection driver_up = Inr ()" by (simp add: driver_up_def)
  have b: "bulkWrite driver_up = Inr 1" by (simp add: driver_up_def)
  have ev: "handler_patients driver_up 1700 PUT (Array [patient_ann]) =
     (\<lparr>status = 200, json_body = ModifiedBody 1\<rparr>,
      [BulkWrite
        [(ObjectId ''65a1b2c3d4e5f60718293a4b'',
          [(''name'', Plain (JStr ''Ann'')),
           (''createdAt'', Plain (JStr ''2024-01-01T00:00:00.000Z'')),
           (''updatedAt'', Date 1700)])]])"
    by code_simp
  from bulk_update_fields [OF h n c b, of 1700] obtain ops where
    o: "handler_patients driver_up 1700 PUT (Array [patient_ann]) =
          (\<lparr>status = 200, json_body = ModifiedBody 1\<rparr>, [BulkWrite ops])"
    and f: "\<forall>i < length [patient_ann]. setFieldsOk 1700 ([patient_ann] ! i) (snd (ops ! i))"
    by blast
  from o ev have "ops = [(ObjectId ''65a1b2c3d4e5f60718293a4b'',
          [(''name'', Plain (JStr ''Ann'')),
           (''createdAt'', Plain (JStr ''2024-01-01T00:00:00.000Z'')),
           (''updatedAt'', Date 1700)])]" by simp
  with f have "setFieldsOk 1700 patient_ann
     [(''name'', Plain (JStr ''Ann'')),
      (''createdAt'', Plain (JStr ''2024-01-01T00:00:00.000Z'')),
      (''updatedAt'', Date 1700)]" by simp
  with h1 h2 n c b ev show ?thesis by blast
qed



text \<open>
  Claim C6 as stated fails: \<open>createdAt\<close> is among the fields set, with the value sent by
  the client for the first record and with the server's clock for the second, which has none.
\<close>

theorem createdAt_in_update_counterexample:
  "snd (handler_patients driver_up 1700 PUT (Array [patient_ann, row_old])) =
      [BulkWrite
        [(ObjectId ''65a1b2c3d4e5f60718293a4b'',
          [(''name'', Plain (JStr ''Ann'')),
           (''createdAt'', Plain (JStr ''2024-01-01T00:00:00.000Z'')),
           (''updatedAt'', Date 1700)]),
         (ObjectId ''65a1b2c3d4e5f60718293a4b'',
          [(''name'', Plain (JStr ''Ann'')), (''email'', Plain (JStr ''old@x.com'')),
           (''createdAt'', Date 1700), (''updatedAt'', Date 1700)])]]"
  by code_simp

text \<open>
  Claim C8 at the malformed identifier \<open>xyz\<close>: the bulk update answers with status 500,
  a server error, where the single-record GET, PUT and DELETE answer with status 400.
\<close>

theorem bulk_update_malformed_id:
  "\<not> isObjectIdHex ''xyz'' \<and>
   handler_patients driver_up 1700 PUT (Array [patient_malformed]) =
     (\<lparr>status = 500, json_body = ErrorDetails ''Internal server error'' BSONError\<rparr>, []) \<and>
   serverError (fst (handler_patients driver_up 1700 PUT (Array [patient_malformed]))) \<and>
   handler_patient_id driver_up 1700 GET (Id ''xyz'') (Some []) =
     (\<lparr>status = 400, json_body = ErrorBody ''Invalid patient ID format''\<rparr>, []) \<and>
   handler_patient_id driver_up 1700 PUT (Id ''xyz'') (Some [(''name'', JStr ''Ann'')]) =
     (\<lparr>status = 400, json_body = ErrorBody ''Invalid patient ID format''\<rparr>, []) \<and>
   handler_patient_id driver_up 1700 DELETE (Id ''xyz'') (Some []) =
     (\<lparr>status = 400, json_body = ErrorBody ''Invalid patient ID format''\<rparr>, [])"
  by code_simp

text \<open>
  The single-record route, for every HTTP verb and every identifier that is not well-formed,
  when the body of a PUT is a record: the answer is a client error and the driver is not
  called. (A PUT whose body is \<open>null\<close> fails before the identifier is looked at.)
\<close>

theorem single_record_malformed_id:
  assumes "\<not> isObjectIdHex ident" and "getPatientsCollection db = Inr ()"
    and "m = PUT \<longrightarrow> reqbody \<noteq> None"
  shows "clientError (fst (handler_patient_id db now m (Id ident) reqbody)) \<and>
         snd (handler_patient_id db now m (Id ident) reqbody) = []"
  using assms
  by (auto simp: handler_patient_id_def toObjectId_def clientError_def)

theorem single_record_malformed_id_witness:
  "\<not> isObjectIdHex ''65a1b2c3d4e5f60718293a4'' \<and> getPatientsCollection driver_up = Inr () \<and>
   Some [(''name'', JStr ''Ann'')] \<noteq> (None :: json obj option) \<and>
   clientError (fst (handler_patient_id driver_up 1700 PUT (Id ''65a1b2c3d4e5f60718293a4'')
                      (Some [(''name'', JStr ''Ann'')]))) \<and>
   snd (handler_patient_id driver_up 1700 PUT (Id ''65a1b2c3d4e5f60718293a4'')
          (Some [(''name'', JStr ''Ann'')])) = []"
proof -
  have h: "\<not> isObjectIdHex ''65a1b2c3d4e5f60718293a4''" by code_simp
  have c: "getPatientsCollection driver_up = Inr ()" by (simp add: driver_up_def)
  have b: "PUT = PUT \<longrightarrow> Some [(''name'', JStr ''Ann'')] \<noteq> (None :: json obj option)" by simp
  from single_record_malformed_id [OF h c b, of 1700] h c show ?thesis by blast
qed

end
